theory Spec2Isabelle
  imports Complex_Main
begin

section \<open>The A/B learning plugin: data model\<close>

text \<open>
  The theory embeds \<^verbatim>\<open>src/ab-learning.ts\<close> (class \<^verbatim>\<open>ABLearningPlugin\<close>).

  Numbers. A JavaScript \<^verbatim>\<open>number\<close> and an SQLite \<^verbatim>\<open>REAL\<close> are IEEE doubles; they are
  modelled by \<^typ>\<open>real\<close>, so rounding, overflow and underflow are abstracted away. The
  places where the code produces a non-finite value from finite in-range operands
  (\<^verbatim>\<open>Math.log(0)\<close>, \<^verbatim>\<open>0 / 0\<close>, SQL division by zero) are written out as separate cases.
  \<^verbatim>\<open>total_trials\<close> is a count: it is created as 0 and only ever incremented, and is a
  \<^typ>\<open>nat\<close>. \<^verbatim>\<open>generation\<close> and the timestamps are \<^typ>\<open>int\<close>.

  Tables. A table is the list of its rows in insertion order. \<^verbatim>\<open>SELECT ... WHERE key = ?\<close>
  followed by \<^verbatim>\<open>.get\<close> is \<^const>\<open>find\<close>, \<^verbatim>\<open>UPDATE ... WHERE\<close> maps over the matching
  rows, \<^verbatim>\<open>DELETE ... WHERE\<close> filters, \<^verbatim>\<open>INSERT\<close> appends after the primary-key check and
  \<^verbatim>\<open>INSERT OR REPLACE\<close> removes the rows with the same key before appending. The code
  never issues \<^verbatim>\<open>PRAGMA foreign_keys = ON\<close>, so the \<^verbatim>\<open>FOREIGN KEY\<close> clauses of the schema
  are not enforced (SQLite's default) and have no counterpart here. The tables
  \<^verbatim>\<open>experiment_assignments\<close> and \<^verbatim>\<open>contextual_features\<close> are never read or written by the
  class and are left out.

  A row and the object that \<^verbatim>\<open>getPerformance\<close>, \<^verbatim>\<open>getTopVariants\<close> build from it field by
  field are the same record.
\<close>

record PromptVariant =
  pv_id :: string
  template :: string
  parentId :: "string option"
  generation :: int
  createdAt :: int

record VariantPerformance =
  variantId :: string
  alpha :: real
  beta :: real
  totalTrials :: nat
  avgReward :: real
  avgLatencyMs :: real
  avgTokenCost :: real

record FeedbackRecord =
  taskId :: string
  fb_variantId :: string
  reward :: real
  latencyMs :: real
  tokenCost :: real
  success :: bool
  timestamp :: int

record PreferenceComparison =
  winnerId :: string
  loserId :: string
  pc_context :: string
  humanFeedback :: bool
  pc_timestamp :: int

record database =
  prompt_variants :: "PromptVariant list"
  variant_performance :: "VariantPerformance list"
  feedback_records :: "FeedbackRecord list"
  preference_comparisons :: "PreferenceComparison list"

text \<open>The database right after \<^verbatim>\<open>initDatabase\<close> on a new file.\<close>

definition emptyDatabase :: database where
  "emptyDatabase =
     \<lparr>prompt_variants = [], variant_performance = [], feedback_records = [],
      preference_comparisons = []\<rparr>"

section \<open>The posterior store\<close>

text \<open>The row of \<^verbatim>\<open>variant_performance\<close> with the given key, if there is one.\<close>

definition performanceRow :: "database \<Rightarrow> string \<Rightarrow> VariantPerformance option" where
  "performanceRow db vid = find (\<lambda>r. variantId r = vid) (variant_performance db)"

text \<open>The uniform prior \<^verbatim>\<open>Beta(1, 1)\<close> that \<^verbatim>\<open>getPerformance\<close> builds when there is no row.\<close>

definition defaultPrior :: "string \<Rightarrow> VariantPerformance" where
  "defaultPrior vid =
     \<lparr>variantId = vid, alpha = 1, beta = 1, totalTrials = 0, avgReward = 0,
      avgLatencyMs = 0, avgTokenCost = 0\<rparr>"

definition getPerformance :: "database \<Rightarrow> string \<Rightarrow> VariantPerformance" where
  "getPerformance db vid =
     (case performanceRow db vid of
        Some row \<Rightarrow> row
      | None \<Rightarrow> defaultPrior vid)"

text \<open>
  \<^verbatim>\<open>getVariantStats\<close> is a public method: it is given as the value it returns together with
  the database after the call. Its body is one \<^verbatim>\<open>SELECT\<close>.
\<close>

definition getVariantStats :: "database \<Rightarrow> string \<Rightarrow> VariantPerformance \<times> database" where
  "getVariantStats db vid = (getPerformance db vid, db)"

definition insertOrReplace ::
  "VariantPerformance \<Rightarrow> VariantPerformance list \<Rightarrow> VariantPerformance list" where
  "insertOrReplace row rows = filter (\<lambda>r. variantId r \<noteq> variantId row) rows @ [row]"

text \<open>
  \<^verbatim>\<open>recordFeedback(feedback)\<close>; \<open>now\<close> is the value of \<^verbatim>\<open>Date.now()\<close> at the second
  statement. The \<^verbatim>\<open>timestamp\<close> field of the argument is not read.
\<close>

definition recordFeedback :: "database \<Rightarrow> FeedbackRecord \<Rightarrow> int \<Rightarrow> database" where
  "recordFeedback db feedback now =
     (let perf = getPerformance db (fb_variantId feedback);
          newAlpha = alpha perf + (if success feedback then 1 else 0);
          newBeta = beta perf + (if success feedback then 0 else 1);
          newTrials = totalTrials perf + 1;
          newAvgReward =
            (avgReward perf * real (totalTrials perf) + reward feedback) / real newTrials;
          newAvgLatency =
            (avgLatencyMs perf * real (totalTrials perf) + latencyMs feedback) / real newTrials;
          newAvgTokenCost =
            (avgTokenCost perf * real (totalTrials perf) + tokenCost feedback) / real newTrials
      in db\<lparr>variant_performance :=
               insertOrReplace
                 \<lparr>variantId = fb_variantId feedback, alpha = newAlpha, beta = newBeta,
                  totalTrials = newTrials, avgReward = newAvgReward,
                  avgLatencyMs = newAvgLatency, avgTokenCost = newAvgTokenCost\<rparr>
                 (variant_performance db),
             feedback_records :=
               feedback_records db @
                 [\<lparr>taskId = taskId feedback, fb_variantId = fb_variantId feedback,
                   reward = reward feedback, latencyMs = latencyMs feedback,
                   tokenCost = tokenCost feedback, success = success feedback,
                   timestamp = now\<rparr>]\<rparr>)"

section \<open>Preference learning\<close>

text \<open>
  \<^verbatim>\<open>recordPreference\<close>: one \<^verbatim>\<open>INSERT\<close>, two reads whose results are not used, and two
  \<^verbatim>\<open>UPDATE\<close> statements, the second running on the table the first has left.
\<close>

definition boostAlpha :: "string \<Rightarrow> VariantPerformance list \<Rightarrow> VariantPerformance list" where
  "boostAlpha vid rows =
     map (\<lambda>r. if variantId r = vid then r\<lparr>alpha := alpha r + 0.1\<rparr> else r) rows"

definition boostBeta :: "string \<Rightarrow> VariantPerformance list \<Rightarrow> VariantPerformance list" where
  "boostBeta vid rows =
     map (\<lambda>r. if variantId r = vid then r\<lparr>beta := beta r + 0.1\<rparr> else r) rows"

definition recordPreference ::
  "database \<Rightarrow> string \<Rightarrow> string \<Rightarrow> string \<Rightarrow> bool \<Rightarrow> int \<Rightarrow> database" where
  "recordPreference db winner loser ctx human now =
     (let db1 = db\<lparr>preference_comparisons :=
                     preference_comparisons db @
                       [\<lparr>winnerId = winner, loserId = loser, pc_context = ctx,
                         humanFeedback = human, pc_timestamp = now\<rparr>]\<rparr>;
          winnerPerf = getPerformance db1 winner;
          loserPerf = getPerformance db1 loser;
          db2 = db1\<lparr>variant_performance := boostAlpha winner (variant_performance db1)\<rparr>
      in db2\<lparr>variant_performance := boostBeta loser (variant_performance db2)\<rparr>)"

section \<open>Pruning\<close>

text \<open>
  The \<^verbatim>\<open>WHERE\<close> clause of the subquery of \<^verbatim>\<open>pruneLowPerformers\<close>. In SQLite a division by
  zero is \<^verbatim>\<open>NULL\<close>, and a \<^verbatim>\<open>NULL\<close> comparison selects no row.
\<close>

definition lowPerformer :: "VariantPerformance \<Rightarrow> bool" where
  "lowPerformer r \<longleftrightarrow>
     20 \<le> totalTrials r \<and> alpha r + beta r \<noteq> 0 \<and> alpha r / (alpha r + beta r) < 0.05"

definition pruneLowPerformers :: "database \<Rightarrow> database" where
  "pruneLowPerformers db =
     db\<lparr>prompt_variants :=
          filter
            (\<lambda>v. pv_id v \<notin> set (map variantId (filter lowPerformer (variant_performance db))))
            (prompt_variants db)\<rparr>"

section \<open>The Bayesian sampler\<close>

text \<open>
  \<^verbatim>\<open>Math.random()\<close> is modelled by the sequence \<open>rs\<close> of the values it returns, with a
  cursor \<open>p\<close> counting the values consumed so far; every sampling function returns the
  cursor after its last draw. A value of \<^verbatim>\<open>Math.random()\<close> lies in \<open>[0, 1)\<close>, so it can be
  \<open>0\<close>.

  A rejection loop may run forever on an unlucky sequence, so the loops are partial
  functions: \<open>None\<close> stands for a call that does not return.

  \<^verbatim>\<open>randomNormal\<close> computes \<^verbatim>\<open>sqrt(-2 * log(u1)) * cos(2 * PI * u2)\<close>. For \<open>u1 = 0\<close> the
  logarithm is \<^verbatim>\<open>-Infinity\<close> and the product is \<^verbatim>\<open>Infinity\<close>, \<^verbatim>\<open>-Infinity\<close> or \<^verbatim>\<open>NaN\<close>
  by the sign of the cosine.
\<close>

datatype jsnumber = Finite real | PosInfinity | NegInfinity | NaN

definition randomNormal :: "(nat \<Rightarrow> real) \<Rightarrow> nat \<Rightarrow> jsnumber \<times> nat" where
  "randomNormal rs p =
     (let u1 = rs p; u2 = rs (p + 1); k = cos (2 * pi * u2)
      in (if u1 = 0
          then (if 0 < k then PosInfinity else if k < 0 then NegInfinity else NaN)
          else Finite (sqrt (- 2 * ln u1) * k),
          p + 2))"

text \<open>
  The inner \<^verbatim>\<open>do ... while (v <= 0)\<close> of \<^verbatim>\<open>sampleGamma\<close>, with \<open>v = 1 + c * x\<close>. It is entered
  with \<open>c > 0\<close>. It leaves with a finite \<open>x\<close> and \<open>v > 0\<close>, or with \<open>x\<close> and \<open>v\<close> both
  \<^verbatim>\<open>Infinity\<close> or both \<^verbatim>\<open>NaN\<close> (for which \<^verbatim>\<open>v <= 0\<close> is false).
\<close>

datatype attempt = Candidate real real | Degenerate

partial_function (option) sampleGamma_draw ::
  "(nat \<Rightarrow> real) \<Rightarrow> real \<Rightarrow> nat \<Rightarrow> (attempt \<times> nat) option" where
  "sampleGamma_draw rs c p =
     (case randomNormal rs p of
        (Finite x, p1) \<Rightarrow>
          if 1 + c * x \<le> 0 then sampleGamma_draw rs c p1
          else Some (Candidate x (1 + c * x), p1)
      | (PosInfinity, p1) \<Rightarrow> Some (Degenerate, p1)
      | (NegInfinity, p1) \<Rightarrow> sampleGamma_draw rs c p1
      | (NaN, p1) \<Rightarrow> Some (Degenerate, p1))"

text \<open>
  The \<^verbatim>\<open>while (true)\<close> of \<^verbatim>\<open>sampleGamma\<close>. After a non-finite \<open>x\<close> both tests are false
  (their right-hand sides are \<^verbatim>\<open>-Infinity\<close> and \<^verbatim>\<open>NaN\<close>) and the loop goes round again.
  For \<open>u = 0\<close> the second test compares \<^verbatim>\<open>-Infinity\<close> with a finite number and holds.
\<close>

partial_function (option) sampleGamma_loop ::
  "(nat \<Rightarrow> real) \<Rightarrow> real \<Rightarrow> real \<Rightarrow> real \<Rightarrow> nat \<Rightarrow> (real \<times> nat) option" where
  "sampleGamma_loop rs d c scale p =
     Option.bind (sampleGamma_draw rs c p)
       (\<lambda>(a, p1).
          case a of
            Degenerate \<Rightarrow> sampleGamma_loop rs d c scale (p1 + 1)
          | Candidate x v0 \<Rightarrow>
              (let v = v0 * v0 * v0;
                   u = rs p1;
                   x2 = x * x
               in if u < 1 - 0.0331 * x2 * x2 then Some (d * v * scale, p1 + 1)
                  else if u = 0 \<or> ln u < 0.5 * x2 + d * (1 - v + ln v)
                       then Some (d * v * scale, p1 + 1)
                  else sampleGamma_loop rs d c scale (p1 + 1)))"

text \<open>
  \<^verbatim>\<open>sampleGamma(shape, scale)\<close>. In the product of the first branch the recursive call is
  evaluated before \<^verbatim>\<open>Math.random()\<close>. \<^verbatim>\<open>Math.pow(u, 1 / shape)\<close> is \<open>u powr (1 / shape)\<close>
  for \<open>0 < shape\<close> and \<open>0 \<le> u\<close> (both give \<open>0\<close> at \<open>u = 0\<close>). The sampler is modelled for
  positive shapes, which is what the posteriors of the store hold: alpha and beta start
  at 1 and are only ever increased.

  Over the reals the product is positive as soon as \<open>u\<close> is; in doubles \<^verbatim>\<open>Math.pow\<close>
  underflows to 0 for a small shape (shape 0.0005, \<open>u = 0.5\<close>). So the properties below
  use of a gamma sample only that it is not negative, which holds of both.
\<close>

partial_function (option) sampleGamma ::
  "(nat \<Rightarrow> real) \<Rightarrow> real \<Rightarrow> real \<Rightarrow> nat \<Rightarrow> (real \<times> nat) option" where
  "sampleGamma rs shape scale p =
     (if shape < 1
      then Option.bind (sampleGamma rs (shape + 1) scale p)
             (\<lambda>(g, p1). Some (g * (rs p1 powr (1 / shape)), p1 + 1))
      else (let d = shape - 1 / 3;
                c = 1 / sqrt (9 * d)
            in sampleGamma_loop rs d c scale p))"

text \<open>
  \<^verbatim>\<open>sampleBeta\<close> returns \<^verbatim>\<open>x / (x + y)\<close>, which is \<^verbatim>\<open>NaN\<close> for \<open>x = y = 0\<close>. Over the reals
  the quotient of two positive samples lies strictly between 0 and 1; in doubles a small
  \<open>y\<close> is absorbed by \<^verbatim>\<open>x + y\<close> and the quotient is exactly 1. So the properties below use
  of the quotient only that it lies between 0 and 1, bounds included, which holds of
  both.
\<close>

definition sampleBeta ::
  "(nat \<Rightarrow> real) \<Rightarrow> real \<Rightarrow> real \<Rightarrow> nat \<Rightarrow> (jsnumber \<times> nat) option" where
  "sampleBeta rs a b p =
     Option.bind (sampleGamma rs a 1 p)
       (\<lambda>(x, p1).
          Option.bind (sampleGamma rs b 1 p1)
            (\<lambda>(y, p2).
               Some (if x + y = 0
                     then (if x = 0 then NaN else if 0 < x then PosInfinity else NegInfinity)
                     else Finite (x / (x + y)),
                     p2)))"

section \<open>Thompson sampling\<close>

text \<open>The \<^verbatim>\<open>map\<close> over the performances draws the samples from left to right.\<close>

fun sampleAll ::
  "(nat \<Rightarrow> real) \<Rightarrow> VariantPerformance list \<Rightarrow> nat \<Rightarrow> (jsnumber list \<times> nat) option" where
  "sampleAll rs [] p = Some ([], p)"
| "sampleAll rs (perf # perfs) p =
     Option.bind (sampleBeta rs (alpha perf) (beta perf) p)
       (\<lambda>(s, p1). Option.bind (sampleAll rs perfs p1) (\<lambda>(ss, p2). Some (s # ss, p2)))"

text \<open>
  The comparison \<^verbatim>\<open><\<close> of two numbers, \<^verbatim>\<open>Math.max\<close> of an argument list (\<^verbatim>\<open>-Infinity\<close> for
  no argument, \<^verbatim>\<open>NaN\<close> as soon as one argument is \<^verbatim>\<open>NaN\<close>), \<^verbatim>\<open>Array.prototype.indexOf\<close>
  (strict equality, so \<^verbatim>\<open>NaN\<close> is never found; \<open>- 1\<close> when absent) and the array read
  \<^verbatim>\<open>xs[i]\<close>, which is \<^verbatim>\<open>undefined\<close> (\<open>None\<close>) outside the array.
\<close>

fun js_less :: "jsnumber \<Rightarrow> jsnumber \<Rightarrow> bool" where
  "js_less NaN _ = False"
| "js_less _ NaN = False"
| "js_less (Finite x) (Finite y) = (x < y)"
| "js_less (Finite x) PosInfinity = True"
| "js_less NegInfinity (Finite y) = True"
| "js_less NegInfinity PosInfinity = True"
| "js_less _ _ = False"

definition js_max :: "jsnumber \<Rightarrow> jsnumber \<Rightarrow> jsnumber" where
  "js_max a b = (if a = NaN \<or> b = NaN then NaN else if js_less a b then b else a)"

definition Math_max :: "jsnumber list \<Rightarrow> jsnumber" where
  "Math_max xs = foldl js_max NegInfinity xs"

fun indexOf :: "jsnumber list \<Rightarrow> jsnumber \<Rightarrow> int" where
  "indexOf [] v = - 1"
| "indexOf (x # xs) v =
     (if x \<noteq> NaN \<and> x = v then 0
      else (let i = indexOf xs v in if i < 0 then - 1 else i + 1))"

definition element :: "'a list \<Rightarrow> int \<Rightarrow> 'a option" where
  "element xs i = (if 0 \<le> i \<and> i < int (length xs) then Some (xs ! nat i) else None)"

definition thompsonSample ::
  "database \<Rightarrow> (nat \<Rightarrow> real) \<Rightarrow> string list \<Rightarrow> nat \<Rightarrow> (string option \<times> nat) option" where
  "thompsonSample db rs candidateIds p =
     (let performances = map (getPerformance db) candidateIds
      in Option.bind (sampleAll rs performances p)
           (\<lambda>(samples, p1).
              let maxIdx = indexOf samples (Math_max samples)
              in Some (element candidateIds maxIdx, p1)))"

section \<open>Statistical evaluation\<close>

record ABTestResult =
  winner :: "string option"
  confidence :: real
  pValue :: real

text \<open>The \<^verbatim>\<open>for\<close> loop of \<^verbatim>\<open>evaluateABTest\<close>, by the number of rounds left.\<close>

fun monteCarlo ::
  "nat \<Rightarrow> (nat \<Rightarrow> real) \<Rightarrow> VariantPerformance \<Rightarrow> VariantPerformance \<Rightarrow> nat \<Rightarrow> nat \<Rightarrow>
   (nat \<times> nat) option" where
  "monteCarlo 0 rs perfA perfB countAWins p = Some (countAWins, p)"
| "monteCarlo (Suc n) rs perfA perfB countAWins p =
     Option.bind (sampleBeta rs (alpha perfA) (beta perfA) p)
       (\<lambda>(sampleA, p1).
          Option.bind (sampleBeta rs (alpha perfB) (beta perfB) p1)
            (\<lambda>(sampleB, p2).
               monteCarlo n rs perfA perfB
                 (if js_less sampleB sampleA then countAWins + 1 else countAWins) p2))"

definition evaluateABTest ::
  "database \<Rightarrow> (nat \<Rightarrow> real) \<Rightarrow> string \<Rightarrow> string \<Rightarrow> nat \<Rightarrow> (ABTestResult \<times> nat) option" where
  "evaluateABTest db rs variantA variantB p =
     (let perfA = getPerformance db variantA;
          perfB = getPerformance db variantB;
          nSamples = 10000
      in Option.bind (monteCarlo nSamples rs perfA perfB 0 p)
           (\<lambda>(countAWins, p1).
              let probAWins = real countAWins / real nSamples;
                  confidence = max probAWins (1 - probAWins);
                  pValue = 2 * min probAWins (1 - probAWins)
              in Some (\<lparr>winner = (if 0.95 < confidence
                                    then (if 0.5 < probAWins then Some variantA else Some variantB)
                                    else None),
                         confidence = confidence, pValue = pValue\<rparr>, p1)))"

section \<open>Genetic evolution\<close>

text \<open>
  What a call can throw: a \<^verbatim>\<open>TypeError\<close> when a property of \<^verbatim>\<open>undefined\<close> is read, and
  the error of SQLite when an \<^verbatim>\<open>INSERT\<close> meets an existing primary key.
\<close>

datatype error = TypeError | SQLiteConstraint

definition minTrialsBeforeExploitation :: nat where
  "minTrialsBeforeExploitation = 10"

text \<open>
  \<^verbatim>\<open>getTopVariants(n)\<close>: the join of the two tables restricted by the \<^verbatim>\<open>WHERE\<close> clause, then
  \<^verbatim>\<open>ORDER BY vp.avg_reward DESC\<close>, then \<^verbatim>\<open>LIMIT n\<close> (in SQLite a negative limit is no limit).
  SQL leaves the order of rows with equal \<^verbatim>\<open>avg_reward\<close> open. SQLite runs this query by
  scanning \<^verbatim>\<open>variant_performance\<close> in the order of its rows and looking the variant up by
  its key, and its sort under a \<^verbatim>\<open>LIMIT\<close> keeps rows with equal keys in the order of the
  scan; so \<^verbatim>\<open>variant_performance\<close> is the outer table here and the sort is stable.
\<close>

definition eligibleRows :: "database \<Rightarrow> (PromptVariant \<times> real) list" where
  "eligibleRows db =
     concat (map (\<lambda>vp. map (\<lambda>pv. (pv, avgReward vp))
                        (filter (\<lambda>pv. pv_id pv = variantId vp) (prompt_variants db)))
               (filter (\<lambda>vp. minTrialsBeforeExploitation \<le> totalTrials vp)
                  (variant_performance db)))"

definition topRows :: "database \<Rightarrow> int \<Rightarrow> (PromptVariant \<times> real) list" where
  "topRows db n =
     (let ordered = sort_key (\<lambda>row. - snd row) (eligibleRows db)
      in if n < 0 then ordered else take (nat n) ordered)"

definition getTopVariants :: "database \<Rightarrow> int \<Rightarrow> PromptVariant list" where
  "getTopVariants db n = map fst (topRows db n)"

text \<open>
  \<^verbatim>\<open>population[Math.floor(Math.random() * population.length)]\<close>, for the draw \<open>r\<close>, and the
  callback of \<^verbatim>\<open>contestants.reduce\<close>: it reads \<^verbatim>\<open>a.id\<close> and then \<^verbatim>\<open>b.id\<close>, and returns \<open>b\<close>
  on equal average rewards.
\<close>

definition contestant :: "PromptVariant list \<Rightarrow> real \<Rightarrow> PromptVariant option" where
  "contestant population r = element population \<lfloor>r * real (length population)\<rfloor>"

definition better ::
  "database \<Rightarrow> PromptVariant option \<Rightarrow> PromptVariant option \<Rightarrow> error + PromptVariant" where
  "better db a b =
     (case a of
        None \<Rightarrow> Inl TypeError
      | Some a' \<Rightarrow>
          (let perfA = getPerformance db (pv_id a')
           in case b of
                None \<Rightarrow> Inl TypeError
              | Some b' \<Rightarrow>
                  (let perfB = getPerformance db (pv_id b')
                   in Inr (if avgReward perfB < avgReward perfA then a' else b'))))"

text \<open>
  One round of the outer loop of \<^verbatim>\<open>tournamentSelection\<close>: three contestants are drawn, then
  reduced from the left. \<^verbatim>\<open>tournamentSelection\<close> runs \<open>k\<close> rounds and stops at the first
  that throws.
\<close>

definition tournament ::
  "database \<Rightarrow> PromptVariant list \<Rightarrow> (nat \<Rightarrow> real) \<Rightarrow> nat \<Rightarrow> (error + PromptVariant) \<times> nat" where
  "tournament db population rs p =
     (let c0 = contestant population (rs p);
          c1 = contestant population (rs (p + 1));
          c2 = contestant population (rs (p + 2))
      in (case better db c0 c1 of
            Inl e \<Rightarrow> Inl e
          | Inr best \<Rightarrow> better db (Some best) c2,
          p + 3))"

fun tournamentSelection ::
  "database \<Rightarrow> PromptVariant list \<Rightarrow> nat \<Rightarrow> (nat \<Rightarrow> real) \<Rightarrow> nat \<Rightarrow>
   (error + PromptVariant list) \<times> nat" where
  "tournamentSelection db population 0 rs p = (Inr [], p)"
| "tournamentSelection db population (Suc k) rs p =
     (case tournament db population rs p of
        (Inl e, p1) \<Rightarrow> (Inl e, p1)
      | (Inr best, p1) \<Rightarrow>
          (case tournamentSelection db population k rs p1 of
             (Inl e, p2) \<Rightarrow> (Inl e, p2)
           | (Inr selected, p2) \<Rightarrow> (Inr (best # selected), p2)))"

text \<open>
  The placeholder bodies of \<^verbatim>\<open>crossoverPrompts\<close> and \<^verbatim>\<open>mutatePrompt\<close>: \<^verbatim>\<open>split('\n')[0]\<close> is
  the text before the first line feed; \<open>r\<close> is the draw that picks the mutation, and
  string concatenation with \<^verbatim>\<open>undefined\<close> appends the word.
\<close>

definition crossoverPrompts :: "string \<Rightarrow> string \<Rightarrow> string" where
  "crossoverPrompts promptA promptB =
     promptA @ [CHR 0x0A, CHR 0x0A] @ ''Additionally: '' @ takeWhile (\<lambda>c. c \<noteq> CHR 0x0A) promptB"

definition mutations :: "string list" where
  "mutations =
     ['' Be concise.'', '' Focus on performance.'', '' Consider edge cases.'',
      '' Use modern patterns.'', '' Optimize for readability.'']"

definition mutatePrompt :: "string \<Rightarrow> real \<Rightarrow> string" where
  "mutatePrompt prompt r =
     prompt @ (case element mutations \<lfloor>r * real (length mutations)\<rfloor> of
                 Some m \<Rightarrow> m
               | None \<Rightarrow> ''undefined'')"

text \<open>
  \<^verbatim>\<open>createVariant\<close>; \<open>newId\<close> is the hex string of \<^verbatim>\<open>randomBytes(16)\<close> and \<open>now\<close> the value
  of \<^verbatim>\<open>Date.now()\<close>. \<^verbatim>\<open>parentId || null\<close> turns the empty string into \<^verbatim>\<open>null\<close>. The two
  \<^verbatim>\<open>INSERT\<close> statements are not in a transaction: when the second fails the first stays.
\<close>

definition createVariant ::
  "database \<Rightarrow> string \<Rightarrow> string option \<Rightarrow> int \<Rightarrow> string \<Rightarrow> int \<Rightarrow> (error + string) \<times> database" where
  "createVariant db tmpl parent gen newId now =
     (if newId \<in> set (map pv_id (prompt_variants db)) then (Inl SQLiteConstraint, db)
      else
        (let db1 = db\<lparr>prompt_variants :=
                        prompt_variants db @
                          [\<lparr>pv_id = newId, template = tmpl,
                            parentId = (case parent of
                                          None \<Rightarrow> None
                                        | Some s \<Rightarrow> if s = [] then None else Some s),
                            generation = gen, createdAt = now\<rparr>]\<rparr>
         in if newId \<in> set (map variantId (variant_performance db1))
            then (Inl SQLiteConstraint, db1)
            else (Inr newId,
                  db1\<lparr>variant_performance := variant_performance db1 @ [defaultPrior newId]\<rparr>)))"

text \<open>
  The \<^verbatim>\<open>for\<close> loop of \<^verbatim>\<open>evolvePrompts\<close>, by the number of iterations left; \<open>gen\<close> is the loop
  counter, \<open>ids gen\<close> and \<open>clock gen\<close> are the random id and the time of the variant
  created in iteration \<open>gen\<close>. The result is what the promise settles to, with the
  database and the cursor of \<^verbatim>\<open>Math.random()\<close> at that moment.
\<close>

fun evolveLoop ::
  "nat \<Rightarrow> PromptVariant list \<Rightarrow> (nat \<Rightarrow> real) \<Rightarrow> (nat \<Rightarrow> string) \<Rightarrow> (nat \<Rightarrow> int) \<Rightarrow>
   nat \<Rightarrow> database \<Rightarrow> nat \<Rightarrow> string list \<Rightarrow> (error + string list) \<times> database \<times> nat" where
  "evolveLoop 0 population rs ids clock gen db p newVariants = (Inr newVariants, db, p)"
| "evolveLoop (Suc m) population rs ids clock gen db p newVariants =
     (case tournamentSelection db population 2 rs p of
        (Inl e, p1) \<Rightarrow> (Inl e, db, p1)
      | (Inr parents, p1) \<Rightarrow>
          (case parents of
             parent0 # parent1 # _ \<Rightarrow>
               (let offspring = crossoverPrompts (template parent0) (template parent1);
                    mutate = rs p1 < 0.2;
                    mutated = (if mutate then mutatePrompt offspring (rs (p1 + 1)) else offspring);
                    p2 = (if mutate then p1 + 2 else p1 + 1)
                in case createVariant db mutated (Some (pv_id parent0)) (generation parent0 + 1)
                          (ids gen) (clock gen) of
                     (Inl e, db1) \<Rightarrow> (Inl e, db1, p2)
                   | (Inr newVariantId, db1) \<Rightarrow>
                       evolveLoop m population rs ids clock (gen + 1) db1 p2
                         (newVariants @ [newVariantId]))
           | _ \<Rightarrow> (Inl TypeError, db, p1)))"

definition evolvePrompts ::
  "database \<Rightarrow> (nat \<Rightarrow> real) \<Rightarrow> (nat \<Rightarrow> string) \<Rightarrow> (nat \<Rightarrow> int) \<Rightarrow> int \<Rightarrow> int \<Rightarrow> nat \<Rightarrow>
   (error + string list) \<times> database \<times> nat" where
  "evolvePrompts db rs ids clock populationSize nGenerations p =
     (let population = getTopVariants db populationSize
      in evolveLoop (nat nGenerations) population rs ids clock 0 db p [])"

section \<open>The maintenance cycle\<close>

text \<open>
  The callback that \<^verbatim>\<open>continuousLearningLoop\<close> hands to \<^verbatim>\<open>setInterval\<close>: prune, evolve with
  population 5 and 2 generations, decay the exploration rate. When \<^verbatim>\<open>evolvePrompts\<close> rejects,
  the callback ends there.
\<close>

record plugin =
  store :: database
  explorationRate :: real

definition maintenanceCycle ::
  "plugin \<Rightarrow> (nat \<Rightarrow> real) \<Rightarrow> (nat \<Rightarrow> string) \<Rightarrow> (nat \<Rightarrow> int) \<Rightarrow> nat \<Rightarrow>
   (error + unit) \<times> plugin \<times> nat" where
  "maintenanceCycle pl rs ids clock p =
     (let db1 = pruneLowPerformers (store pl)
      in case evolvePrompts db1 rs ids clock 5 2 p of
           (Inl e, db2, p1) \<Rightarrow> (Inl e, pl\<lparr>store := db2\<rparr>, p1)
         | (Inr newVariants, db2, p1) \<Rightarrow>
             (Inr (),
              \<lparr>store = db2, explorationRate = max 0.05 (explorationRate pl * 0.95)\<rparr>, p1))"

section \<open>Example stores and draws\<close>

text \<open>
  Two variants with the same posterior mean 0.03: \<open>''a''\<close> after 25 trials and \<open>''b''\<close>
  after 10.
\<close>

definition pruneExample :: database where
  "pruneExample =
     \<lparr>prompt_variants =
        [\<lparr>pv_id = ''a'', template = ''first'', parentId = None, generation = 0, createdAt = 1\<rparr>,
         \<lparr>pv_id = ''b'', template = ''second'', parentId = None, generation = 0, createdAt = 2\<rparr>],
      variant_performance =
        [\<lparr>variantId = ''a'', alpha = 3/4, beta = 97/4, totalTrials = 25, avgReward = 0,
          avgLatencyMs = 0, avgTokenCost = 0\<rparr>,
         \<lparr>variantId = ''b'', alpha = 3/10, beta = 97/10, totalTrials = 10, avgReward = 0,
          avgLatencyMs = 0, avgTokenCost = 0\<rparr>],
      feedback_records = [], preference_comparisons = []\<rparr>"

text \<open>Two variants that have both received feedback.\<close>

definition preferenceExample :: database where
  "preferenceExample =
     \<lparr>prompt_variants =
        [\<lparr>pv_id = ''a'', template = ''first'', parentId = None, generation = 0, createdAt = 1\<rparr>,
         \<lparr>pv_id = ''b'', template = ''second'', parentId = None, generation = 0, createdAt = 2\<rparr>],
      variant_performance =
        [\<lparr>variantId = ''a'', alpha = 4, beta = 2, totalTrials = 4, avgReward = 3/4,
          avgLatencyMs = 90, avgTokenCost = 5\<rparr>,
         \<lparr>variantId = ''b'', alpha = 1, beta = 3, totalTrials = 2, avgReward = 0,
          avgLatencyMs = 70, avgTokenCost = 6\<rparr>],
      feedback_records = [], preference_comparisons = []\<rparr>"

text \<open>
  Sequences of draws, all values of \<^verbatim>\<open>Math.random()\<close> that are exact doubles. Where the second
  draw of a normal deviate is \<open>1 / 4\<close> the deviate is \<open>0\<close> and the candidate is accepted at
  once. \<open>exampleDraws\<close>, \<open>oneDraws\<close> and \<open>nanDraws\<close> hold the value \<open>0\<close> where a gamma sample
  of a shape below 1 takes its last draw. In \<open>stuckDraws\<close> every normal deviate is
  \<open>- sqrt (2 * ln 1024)\<close>, about \<open>- 3.72\<close>.
\<close>

definition exampleDraws :: "nat \<Rightarrow> real" where
  "exampleDraws i = (if i = 3 then 0 else if i = 1 \<or> i = 5 then 1 / 4 else 1 / 2)"

definition oneDraws :: "nat \<Rightarrow> real" where
  "oneDraws i = (if i = 6 then 0 else if i = 1 \<or> i = 4 then 1 / 4 else 1 / 2)"

definition nanDraws :: "nat \<Rightarrow> real" where
  "nanDraws i = (if i = 3 \<or> i = 7 then 0 else if i = 1 \<or> i = 5 then 1 / 4 else 1 / 2)"

definition stuckDraws :: "nat \<Rightarrow> real" where
  "stuckDraws i = (if even i then 1 / 1024 else 1 / 2)"

definition positiveDraws :: "nat \<Rightarrow> real" where
  "positiveDraws i = (if i = 1 \<or> i = 5 then 1 / 4 else 1 / 2)"

definition steadyDraws :: "nat \<Rightarrow> real" where
  "steadyDraws i = (if i mod 3 = 1 then 1 / 4 else 1 / 2)"

definition abExample :: database where
  "abExample =
     emptyDatabase\<lparr>variant_performance :=
       [\<lparr>variantId = ''a'', alpha = 2, beta = 1, totalTrials = 1, avgReward = 1,
         avgLatencyMs = 50, avgTokenCost = 2\<rparr>]\<rparr>"

text \<open>
  Three variants: \<open>''a''\<close> and \<open>''b''\<close> have enough trials to breed, \<open>''c''\<close> has not.
\<close>

definition evolveExample :: database where
  "evolveExample =
     \<lparr>prompt_variants =
        [\<lparr>pv_id = ''a'', template = ''Fix the bug.'', parentId = None, generation = 0,
          createdAt = 1\<rparr>,
         \<lparr>pv_id = ''b'', template = ''Refactor.'', parentId = Some ''a'', generation = 1,
          createdAt = 2\<rparr>,
         \<lparr>pv_id = ''c'', template = ''Explain.'', parentId = None, generation = 0,
          createdAt = 3\<rparr>],
      variant_performance =
        [\<lparr>variantId = ''a'', alpha = 6, beta = 8, totalTrials = 12, avgReward = 2 / 5,
          avgLatencyMs = 80, avgTokenCost = 5\<rparr>,
         \<lparr>variantId = ''b'', alpha = 14, beta = 3, totalTrials = 15, avgReward = 9 / 10,
          avgLatencyMs = 60, avgTokenCost = 4\<rparr>,
         \<lparr>variantId = ''c'', alpha = 3, beta = 2, totalTrials = 3, avgReward = 1,
          avgLatencyMs = 70, avgTokenCost = 6\<rparr>],
      feedback_records = [], preference_comparisons = []\<rparr>"

text \<open>
  Two variants with the same average reward, created as \<open>''a''\<close> then \<open>''b''\<close>, whose
  posterior rows stand in the other order (feedback for \<open>''a''\<close> came last and
  \<^verbatim>\<open>INSERT OR REPLACE\<close> moved its row to the end).
\<close>

definition tieExample :: database where
  "tieExample =
     \<lparr>prompt_variants =
        [\<lparr>pv_id = ''a'', template = ''first'', parentId = None, generation = 0, createdAt = 1\<rparr>,
         \<lparr>pv_id = ''b'', template = ''second'', parentId = None, generation = 0, createdAt = 2\<rparr>],
      variant_performance =
        [\<lparr>variantId = ''b'', alpha = 7, beta = 5, totalTrials = 10, avgReward = 1 / 2,
          avgLatencyMs = 0, avgTokenCost = 0\<rparr>,
         \<lparr>variantId = ''a'', alpha = 7, beta = 5, totalTrials = 10, avgReward = 1 / 2,
          avgLatencyMs = 0, avgTokenCost = 0\<rparr>],
      feedback_records = [], preference_comparisons = []\<rparr>"

definition exampleIds :: "nat \<Rightarrow> string" where
  "exampleIds k = (if k = 0 then ''n0'' else ''n1'')"

section \<open>Properties of the posterior store\<close>

lemma find_map_key:
  assumes "\<And>r. variantId (f r) = variantId r"
  shows "find (\<lambda>r. variantId r = v) (map f rows) = map_option f (find (\<lambda>r. variantId r = v) rows)"
  by (induction rows) (simp_all add: assms)

lemma find_insertOrReplace_same:
  "find (\<lambda>r. variantId r = variantId row) (insertOrReplace row rows) = Some row"
  by (induction rows) (simp_all add: insertOrReplace_def)

lemma find_insertOrReplace_other:
  "v \<noteq> variantId row \<Longrightarrow>
   find (\<lambda>r. variantId r = v) (insertOrReplace row rows) = find (\<lambda>r. variantId r = v) rows"
  by (induction rows) (simp_all add: insertOrReplace_def)

lemma find_Some_key: "find (\<lambda>r. variantId r = v) rows = Some r \<Longrightarrow> variantId r = v"
  by (induction rows) (auto split: if_splits)

text \<open>
  Claim C1. For every stored posterior \<open>row\<close> of the variant and every feedback event,
  \<^const>\<open>recordFeedback\<close> stores \<open>alpha + 1\<close> on success and \<open>alpha\<close> otherwise, \<open>beta + 1\<close> on
  failure and \<open>beta\<close> otherwise, \<open>totalTrials + 1\<close>, and for reward, latency and cost the
  running average \<open>(avg * n + value) / (n + 1)\<close>; it appends one record to the feedback
  history, stamped with the current time.
\<close>

theorem recordFeedback_posterior:
  assumes "performanceRow db (fb_variantId fb) = Some row"
  shows "performanceRow (recordFeedback db fb now) (fb_variantId fb) =
           Some \<lparr>variantId = fb_variantId fb,
                 alpha = (if success fb then alpha row + 1 else alpha row),
                 beta = (if success fb then beta row else beta row + 1),
                 totalTrials = totalTrials row + 1,
                 avgReward = (avgReward row * real (totalTrials row) + reward fb) / (real (totalTrials row) + 1),
                 avgLatencyMs = (avgLatencyMs row * real (totalTrials row) + latencyMs fb) / (real (totalTrials row) + 1),
                 avgTokenCost = (avgTokenCost row * real (totalTrials row) + tokenCost fb) / (real (totalTrials row) + 1)\<rparr>
         \<and> feedback_records (recordFeedback db fb now) = feedback_records db @ [fb\<lparr>timestamp := now\<rparr>]"
proof -
  have perf: "getPerformance db (fb_variantId fb) = row"
    using assms by (simp add: getPerformance_def)
  let ?new = "\<lparr>variantId = fb_variantId fb,
                 alpha = alpha row + (if success fb then 1 else 0),
                 beta = beta row + (if success fb then 0 else 1),
                 totalTrials = totalTrials row + 1,
                 avgReward = (avgReward row * real (totalTrials row) + reward fb) / real (totalTrials row + 1),
                 avgLatencyMs = (avgLatencyMs row * real (totalTrials row) + latencyMs fb) / real (totalTrials row + 1),
                 avgTokenCost = (avgTokenCost row * real (totalTrials row) + tokenCost fb) / real (totalTrials row + 1)\<rparr>"
  have tab: "variant_performance (recordFeedback db fb now) = insertOrReplace ?new (variant_performance db)"
    by (simp add: recordFeedback_def perf Let_def)
  have "performanceRow (recordFeedback db fb now) (fb_variantId fb) = Some ?new"
    unfolding performanceRow_def tab using find_insertOrReplace_same [of ?new] by simp
  moreover have "feedback_records (recordFeedback db fb now) = feedback_records db @ [fb\<lparr>timestamp := now\<rparr>]"
    by (simp add: recordFeedback_def Let_def)
  ultimately show ?thesis by (simp add: add.commute)
qed

theorem recordFeedback_posterior_witness:
  "performanceRow
     (emptyDatabase\<lparr>variant_performance :=
        [\<lparr>variantId = ''v1'', alpha = 3, beta = 2, totalTrials = 3, avgReward = 1/2,
          avgLatencyMs = 100, avgTokenCost = 8\<rparr>]\<rparr>) ''v1''
     = Some \<lparr>variantId = ''v1'', alpha = 3, beta = 2, totalTrials = 3, avgReward = 1/2,
          avgLatencyMs = 100, avgTokenCost = 8\<rparr>
   \<and> performanceRow
       (recordFeedback
          (emptyDatabase\<lparr>variant_performance :=
             [\<lparr>variantId = ''v1'', alpha = 3, beta = 2, totalTrials = 3, avgReward = 1/2,
               avgLatencyMs = 100, avgTokenCost = 8\<rparr>]\<rparr>)
          \<lparr>taskId = ''t1'', fb_variantId = ''v1'', reward = 1, latencyMs = 120, tokenCost = 4,
           success = True, timestamp = 0\<rparr> 7) ''v1''
     = Some \<lparr>variantId = ''v1'', alpha = 4, beta = 2, totalTrials = 4, avgReward = 5/8,
          avgLatencyMs = 105, avgTokenCost = 7\<rparr>
   \<and> feedback_records
       (recordFeedback
          (emptyDatabase\<lparr>variant_performance :=
             [\<lparr>variantId = ''v1'', alpha = 3, beta = 2, totalTrials = 3, avgReward = 1/2,
               avgLatencyMs = 100, avgTokenCost = 8\<rparr>]\<rparr>)
          \<lparr>taskId = ''t1'', fb_variantId = ''v1'', reward = 1, latencyMs = 120, tokenCost = 4,
           success = True, timestamp = 0\<rparr> 7)
     = [\<lparr>taskId = ''t1'', fb_variantId = ''v1'', reward = 1, latencyMs = 120, tokenCost = 4,
           success = True, timestamp = 7\<rparr>]"
proof -
  have row: "performanceRow
     (emptyDatabase\<lparr>variant_performance :=
        [\<lparr>variantId = ''v1'', alpha = 3, beta = 2, totalTrials = 3, avgReward = 1/2,
          avgLatencyMs = 100, avgTokenCost = 8\<rparr>]\<rparr>)
     (fb_variantId \<lparr>taskId = ''t1'', fb_variantId = ''v1'', reward = 1, latencyMs = 120,
        tokenCost = 4, success = True, timestamp = 0\<rparr>)
     = Some \<lparr>variantId = ''v1'', alpha = 3, beta = 2, totalTrials = 3, avgReward = 1/2,
          avgLatencyMs = 100, avgTokenCost = 8\<rparr>"
    by (simp add: performanceRow_def emptyDatabase_def)
  show ?thesis
    using row recordFeedback_posterior [OF row, of 7]
    by (simp add: emptyDatabase_def)
qed

text \<open>
  Claim C4. For a variant id without a row in \<^verbatim>\<open>variant_performance\<close>,
  \<^const>\<open>getVariantStats\<close> returns the default prior (alpha 1, beta 1, no trials, the three
  averages 0) and the database it was given; a second call returns the same again. The
  function has no failing branch.
\<close>

theorem getVariantStats_unknown:
  assumes "performanceRow db vid = None"
  shows "getVariantStats db vid =
           (\<lparr>variantId = vid, alpha = 1, beta = 1, totalTrials = 0, avgReward = 0,
             avgLatencyMs = 0, avgTokenCost = 0\<rparr>, db)
         \<and> getVariantStats (snd (getVariantStats db vid)) vid = getVariantStats db vid"
  using assms by (simp add: getVariantStats_def getPerformance_def defaultPrior_def)

theorem getVariantStats_unknown_witness:
  "performanceRow emptyDatabase ''nobody'' = None
   \<and> getVariantStats emptyDatabase ''nobody'' =
       (\<lparr>variantId = ''nobody'', alpha = 1, beta = 1, totalTrials = 0, avgReward = 0,
         avgLatencyMs = 0, avgTokenCost = 0\<rparr>, emptyDatabase)"
proof -
  have none: "performanceRow emptyDatabase ''nobody'' = None"
    by (simp add: performanceRow_def emptyDatabase_def)
  show ?thesis
    using none getVariantStats_unknown [OF none] by simp
qed

section \<open>Properties of pruning\<close>

text \<open>
  Claim C5, as the code has it. One pruning pass removes from \<^verbatim>\<open>prompt_variants\<close> exactly
  the variants that have a posterior row with at least 20 trials and
  \<open>alpha / (alpha + beta) < 0.05\<close> (a row with \<open>alpha + beta = 0\<close> has no ratio and selects
  nothing), keeps every other variant, and leaves the table \<^verbatim>\<open>variant_performance\<close>
  as it was: the posterior of a removed variant stays stored.
\<close>

theorem pruneLowPerformers_effect:
  "prompt_variants (pruneLowPerformers db) =
     filter
       (\<lambda>v. \<not> (\<exists>r \<in> set (variant_performance db).
                 variantId r = pv_id v \<and> 20 \<le> totalTrials r \<and> alpha r + beta r \<noteq> 0
                 \<and> alpha r / (alpha r + beta r) < 0.05))
       (prompt_variants db)
   \<and> variant_performance (pruneLowPerformers db) = variant_performance db
   \<and> feedback_records (pruneLowPerformers db) = feedback_records db
   \<and> preference_comparisons (pruneLowPerformers db) = preference_comparisons db"
proof -
  have eq: "\<And>v. (pv_id v \<notin> set (map variantId (filter lowPerformer (variant_performance db))))
         = (\<not> (\<exists>r \<in> set (variant_performance db). variantId r = pv_id v \<and> lowPerformer r))"
    by (auto simp: image_iff)
  show ?thesis
    unfolding pruneLowPerformers_def eq lowPerformer_def by simp
qed

theorem pruneLowPerformers_effect_witness:
  "prompt_variants (pruneLowPerformers pruneExample) =
     [\<lparr>pv_id = ''b'', template = ''second'', parentId = None, generation = 0, createdAt = 2\<rparr>]
   \<and> variant_performance (pruneLowPerformers pruneExample) = variant_performance pruneExample"
  using pruneLowPerformers_effect [of pruneExample]
  by (simp add: pruneExample_def)

text \<open>
  Claim C5 as stated fails: after the pass, variant \<open>''a''\<close> (25 trials, posterior mean
  0.03) is gone from \<^verbatim>\<open>prompt_variants\<close> while its posterior row is still there.
\<close>

theorem pruneLowPerformers_keeps_posterior:
  "''a'' \<in> set (map pv_id (prompt_variants pruneExample))
   \<and> ''a'' \<notin> set (map pv_id (prompt_variants (pruneLowPerformers pruneExample)))
   \<and> performanceRow (pruneLowPerformers pruneExample) ''a'' =
       Some \<lparr>variantId = ''a'', alpha = 3/4, beta = 97/4, totalTrials = 25, avgReward = 0,
             avgLatencyMs = 0, avgTokenCost = 0\<rparr>"
  by (simp add: pruneLowPerformers_def pruneExample_def lowPerformer_def performanceRow_def)

section \<open>Properties of preference learning\<close>

lemma performanceRow_boostAlpha:
  "find (\<lambda>r. variantId r = v) (boostAlpha w rows) =
     map_option (\<lambda>r. if variantId r = w then r\<lparr>alpha := alpha r + 0.1\<rparr> else r)
       (find (\<lambda>r. variantId r = v) rows)"
  unfolding boostAlpha_def by (rule find_map_key) simp

lemma performanceRow_boostBeta:
  "find (\<lambda>r. variantId r = v) (boostBeta l rows) =
     map_option (\<lambda>r. if variantId r = l then r\<lparr>beta := beta r + 0.1\<rparr> else r)
       (find (\<lambda>r. variantId r = v) rows)"
  unfolding boostBeta_def by (rule find_map_key) simp

lemma recordPreference_table:
  "variant_performance (recordPreference db w l c h now) =
     boostBeta l (boostAlpha w (variant_performance db))"
  by (simp add: recordPreference_def Let_def)

lemma performanceRow_recordPreference:
  "performanceRow (recordPreference db w l c h now) v =
     map_option
       (\<lambda>r. if variantId r = l then r\<lparr>beta := beta r + 0.1\<rparr> else r)
       (map_option (\<lambda>r. if variantId r = w then r\<lparr>alpha := alpha r + 0.1\<rparr> else r)
          (performanceRow db v))"
  by (simp add: performanceRow_def recordPreference_table performanceRow_boostAlpha
      performanceRow_boostBeta)

text \<open>
  Claim C9. When winner and loser are two variants with stored posterior rows,
  \<^const>\<open>recordPreference\<close> adds 0.1 to the winner's alpha and 0.1 to the loser's beta and
  changes no other field of the two rows, appends one comparison record, leaves the
  posterior of every other variant as it was, creates and removes no posterior row, and
  does not touch the variants or the feedback history.
\<close>

theorem recordPreference_frame:
  assumes w: "performanceRow db w = Some rw"
    and l: "performanceRow db l = Some rl"
    and neq: "w \<noteq> l"
  shows "performanceRow (recordPreference db w l c h now) w = Some (rw\<lparr>alpha := alpha rw + 0.1\<rparr>)
       \<and> performanceRow (recordPreference db w l c h now) l = Some (rl\<lparr>beta := beta rl + 0.1\<rparr>)
       \<and> preference_comparisons (recordPreference db w l c h now) =
           preference_comparisons db @
             [\<lparr>winnerId = w, loserId = l, pc_context = c, humanFeedback = h, pc_timestamp = now\<rparr>]
       \<and> (\<forall>v. v \<noteq> w \<longrightarrow> v \<noteq> l \<longrightarrow>
             performanceRow (recordPreference db w l c h now) v = performanceRow db v)
       \<and> map variantId (variant_performance (recordPreference db w l c h now)) =
           map variantId (variant_performance db)
       \<and> prompt_variants (recordPreference db w l c h now) = prompt_variants db
       \<and> feedback_records (recordPreference db w l c h now) = feedback_records db"
proof -
  have kw: "variantId rw = w" and kl: "variantId rl = l"
    using w l by (auto simp: performanceRow_def dest: find_Some_key)
  have 1: "performanceRow (recordPreference db w l c h now) w = Some (rw\<lparr>alpha := alpha rw + 0.1\<rparr>)"
    using neq by (simp add: performanceRow_recordPreference w kw)
  have 2: "performanceRow (recordPreference db w l c h now) l = Some (rl\<lparr>beta := beta rl + 0.1\<rparr>)"
    using neq by (simp add: performanceRow_recordPreference l kl)
  have 3: "preference_comparisons (recordPreference db w l c h now) =
           preference_comparisons db @
             [\<lparr>winnerId = w, loserId = l, pc_context = c, humanFeedback = h, pc_timestamp = now\<rparr>]"
    by (simp add: recordPreference_def Let_def)
  have 4: "performanceRow (recordPreference db w l c h now) v = performanceRow db v"
    if "v \<noteq> w" "v \<noteq> l" for v
  proof (cases "performanceRow db v")
    case None
    then show ?thesis by (simp add: performanceRow_recordPreference)
  next
    case (Some r)
    then have "variantId r = v" by (auto simp: performanceRow_def dest: find_Some_key)
    with Some that show ?thesis by (simp add: performanceRow_recordPreference)
  qed
  have 5: "map variantId (variant_performance (recordPreference db w l c h now)) =
           map variantId (variant_performance db)"
    by (simp add: recordPreference_table boostAlpha_def boostBeta_def comp_def)
  have 6: "prompt_variants (recordPreference db w l c h now) = prompt_variants db"
    and 7: "feedback_records (recordPreference db w l c h now) = feedback_records db"
    by (simp_all add: recordPreference_def Let_def)
  from 1 2 3 4 5 6 7 show ?thesis by blast
qed

theorem recordPreference_frame_witness:
  "performanceRow preferenceExample ''a'' =
     Some \<lparr>variantId = ''a'', alpha = 4, beta = 2, totalTrials = 4, avgReward = 3/4,
           avgLatencyMs = 90, avgTokenCost = 5\<rparr>
   \<and> performanceRow preferenceExample ''b'' =
     Some \<lparr>variantId = ''b'', alpha = 1, beta = 3, totalTrials = 2, avgReward = 0,
           avgLatencyMs = 70, avgTokenCost = 6\<rparr>
   \<and> ''a'' \<noteq> ''b''
   \<and> performanceRow (recordPreference preferenceExample ''a'' ''b'' ''review'' True 9) ''a'' =
     Some \<lparr>variantId = ''a'', alpha = 41/10, beta = 2, totalTrials = 4, avgReward = 3/4,
           avgLatencyMs = 90, avgTokenCost = 5\<rparr>
   \<and> performanceRow (recordPreference preferenceExample ''a'' ''b'' ''review'' True 9) ''b'' =
     Some \<lparr>variantId = ''b'', alpha = 1, beta = 31/10, totalTrials = 2, avgReward = 0,
           avgLatencyMs = 70, avgTokenCost = 6\<rparr>"
proof -
  have a: "performanceRow preferenceExample ''a'' =
     Some \<lparr>variantId = ''a'', alpha = 4, beta = 2, totalTrials = 4, avgReward = 3/4,
           avgLatencyMs = 90, avgTokenCost = 5\<rparr>"
    by (simp add: performanceRow_def preferenceExample_def)
  have b: "performanceRow preferenceExample ''b'' =
     Some \<lparr>variantId = ''b'', alpha = 1, beta = 3, totalTrials = 2, avgReward = 0,
           avgLatencyMs = 70, avgTokenCost = 6\<rparr>"
    by (simp add: performanceRow_def preferenceExample_def)
  have ab: "''a'' \<noteq> ''b''" by simp
  show ?thesis
    using a b recordPreference_frame [OF a b ab, of "''review''" True 9] by simp
qed

text \<open>
  A variant without a posterior row: \<^const>\<open>recordPreference\<close> appends the comparison
  record, but the \<^verbatim>\<open>UPDATE\<close> matches nothing and no row is created, so the variant still
  has no row afterwards and its posterior still reads the default prior.
\<close>

lemma recordPreference_absent:
  "(performanceRow db w = None \<longrightarrow>
      performanceRow (recordPreference db w l c h now) w = None
    \<and> getPerformance (recordPreference db w l c h now) w =
        \<lparr>variantId = w, alpha = 1, beta = 1, totalTrials = 0, avgReward = 0,
         avgLatencyMs = 0, avgTokenCost = 0\<rparr>)
   \<and> (performanceRow db l = None \<longrightarrow>
      performanceRow (recordPreference db w l c h now) l = None
    \<and> getPerformance (recordPreference db w l c h now) l =
        \<lparr>variantId = l, alpha = 1, beta = 1, totalTrials = 0, avgReward = 0,
         avgLatencyMs = 0, avgTokenCost = 0\<rparr>)
   \<and> preference_comparisons (recordPreference db w l c h now) =
       preference_comparisons db @
         [\<lparr>winnerId = w, loserId = l, pc_context = c, humanFeedback = h, pc_timestamp = now\<rparr>]
   \<and> map variantId (variant_performance (recordPreference db w l c h now)) =
       map variantId (variant_performance db)"
proof -
  have absent: "performanceRow (recordPreference db w l c h now) v = None
      \<and> getPerformance (recordPreference db w l c h now) v =
        \<lparr>variantId = v, alpha = 1, beta = 1, totalTrials = 0, avgReward = 0,
         avgLatencyMs = 0, avgTokenCost = 0\<rparr>"
    if "performanceRow db v = None" for v
    using that by (simp add: performanceRow_recordPreference getPerformance_def defaultPrior_def)
  have log: "preference_comparisons (recordPreference db w l c h now) =
       preference_comparisons db @
         [\<lparr>winnerId = w, loserId = l, pc_context = c, humanFeedback = h, pc_timestamp = now\<rparr>]"
    by (simp add: recordPreference_def Let_def)
  have keys: "map variantId (variant_performance (recordPreference db w l c h now)) =
       map variantId (variant_performance db)"
    by (simp add: recordPreference_table boostAlpha_def boostBeta_def comp_def)
  from absent [of w] absent [of l] log keys show ?thesis by blast
qed

lemma recordPreference_absent_example:
  "performanceRow preferenceExample ''zz'' = None
   \<and> performanceRow (recordPreference preferenceExample ''zz'' ''b'' ''review'' False 9) ''zz'' = None
   \<and> getPerformance (recordPreference preferenceExample ''zz'' ''b'' ''review'' False 9) ''zz'' =
       \<lparr>variantId = ''zz'', alpha = 1, beta = 1, totalTrials = 0, avgReward = 0,
        avgLatencyMs = 0, avgTokenCost = 0\<rparr>
   \<and> preference_comparisons (recordPreference preferenceExample ''zz'' ''b'' ''review'' False 9) =
       [\<lparr>winnerId = ''zz'', loserId = ''b'', pc_context = ''review'', humanFeedback = False,
         pc_timestamp = 9\<rparr>]"
proof -
  have none: "performanceRow preferenceExample ''zz'' = None"
    by (simp add: performanceRow_def preferenceExample_def)
  have log: "preference_comparisons preferenceExample = []"
    by (simp add: preferenceExample_def)
  show ?thesis
    using none log recordPreference_absent [of preferenceExample "''zz''" "''b''" "''review''" False 9]
    by simp
qed

text \<open>
  Claim C7 at a new database and two ids without rows: the call succeeds and records
  the comparison, but \<^verbatim>\<open>variant_performance\<close> stays empty, so the winner's posterior reads
  alpha 1, not 1.1, and the loser's reads beta 1, not 1.1. The default priors that the
  method reads into \<^verbatim>\<open>winnerPerf\<close> and \<^verbatim>\<open>loserPerf\<close> are never written, whereas
  \<^const>\<open>recordFeedback\<close> writes the prior it has read with \<^verbatim>\<open>INSERT OR REPLACE\<close>.
\<close>

theorem recordPreference_unknown_ids:
  "variant_performance (recordPreference emptyDatabase ''w'' ''l'' ''ctx'' False 5) = []
   \<and> alpha (getPerformance (recordPreference emptyDatabase ''w'' ''l'' ''ctx'' False 5) ''w'') = 1
   \<and> alpha (getPerformance (recordPreference emptyDatabase ''w'' ''l'' ''ctx'' False 5) ''w'') \<noteq> 1.1
   \<and> beta (getPerformance (recordPreference emptyDatabase ''w'' ''l'' ''ctx'' False 5) ''l'') = 1
   \<and> beta (getPerformance (recordPreference emptyDatabase ''w'' ''l'' ''ctx'' False 5) ''l'') \<noteq> 1.1
   \<and> preference_comparisons (recordPreference emptyDatabase ''w'' ''l'' ''ctx'' False 5) =
       [\<lparr>winnerId = ''w'', loserId = ''l'', pc_context = ''ctx'', humanFeedback = False,
         pc_timestamp = 5\<rparr>]"
  by (simp add: recordPreference_def emptyDatabase_def boostAlpha_def boostBeta_def
      getPerformance_def performanceRow_def defaultPrior_def Let_def)

section \<open>Properties of the sampler\<close>

lemma sampleGamma_draw_pos:
  assumes "sampleGamma_draw rs c p = Some y"
  shows "case fst y of Candidate x v \<Rightarrow> 0 < v | Degenerate \<Rightarrow> True"
  by (rule sampleGamma_draw.raw_induct
        [where P = "\<lambda>rs c p y. case fst y of Candidate x v \<Rightarrow> 0 < v | Degenerate \<Rightarrow> True",
         OF _ assms])
     (auto split: prod.splits jsnumber.splits if_splits)

lemma sampleGamma_loop_nonneg:
  assumes run: "sampleGamma_loop rs d c scale p = Some y" and d: "0 \<le> d" and scale: "0 \<le> scale"
  shows "0 \<le> fst y"
proof -
  have "0 \<le> d \<longrightarrow> 0 \<le> scale \<longrightarrow> 0 \<le> fst y"
  proof (rule sampleGamma_loop.raw_induct
        [where P = "\<lambda>rs d c scale p y. 0 \<le> d \<longrightarrow> 0 \<le> scale \<longrightarrow> 0 \<le> fst y", OF _ run],
      intro impI)
    fix loop rs d c scale p y
    assume IH: "\<And>rs d c scale p y. loop rs d c scale p = Some y \<Longrightarrow> 0 \<le> d \<longrightarrow> 0 \<le> scale \<longrightarrow> 0 \<le> fst y"
      and step: "Option.bind (sampleGamma_draw rs c p)
       (\<lambda>(a, p1).
          case a of
            Degenerate \<Rightarrow> loop rs d c scale (p1 + 1)
          | Candidate x v0 \<Rightarrow>
              (let v = v0 * v0 * v0;
                   u = rs p1;
                   x2 = x * x
               in if u < 1 - 0.0331 * x2 * x2 then Some (d * v * scale, p1 + 1)
                  else if u = 0 \<or> ln u < 0.5 * x2 + d * (1 - v + ln v)
                       then Some (d * v * scale, p1 + 1)
                  else loop rs d c scale (p1 + 1))) = Some y"
      and d: "0 \<le> d" and scale: "0 \<le> scale"
    from step obtain a p1 where
      dr: "sampleGamma_draw rs c p = Some (a, p1)"
      and body: "(case a of
            Degenerate \<Rightarrow> loop rs d c scale (p1 + 1)
          | Candidate x v0 \<Rightarrow>
              (let v = v0 * v0 * v0;
                   u = rs p1;
                   x2 = x * x
               in if u < 1 - 0.0331 * x2 * x2 then Some (d * v * scale, p1 + 1)
                  else if u = 0 \<or> ln u < 0.5 * x2 + d * (1 - v + ln v)
                       then Some (d * v * scale, p1 + 1)
                  else loop rs d c scale (p1 + 1))) = Some y"
      by (auto simp: bind_eq_Some_conv)
    show "0 \<le> fst y"
    proof (cases a)
      case Degenerate
      with body IH d scale show ?thesis by simp
    next
      case (Candidate x v0)
      have v0: "0 < v0" using sampleGamma_draw_pos [OF dr] Candidate by simp
      then have "0 \<le> d * (v0 * v0 * v0) * scale" using d scale by simp
      with body Candidate IH d scale show ?thesis
        by (auto simp: Let_def split: if_splits)
    qed
  qed
  with d scale show ?thesis by simp
qed

lemma sampleGamma_nonneg:
  assumes run: "sampleGamma rs shape scale p = Some y" and scale: "0 \<le> scale"
  shows "0 \<le> fst y"
proof -
  have "0 \<le> scale \<longrightarrow> 0 \<le> fst y"
  proof (rule sampleGamma.raw_induct
        [where P = "\<lambda>rs shape scale p y. 0 \<le> scale \<longrightarrow> 0 \<le> fst y", OF _ run],
      intro impI)
    fix rec rs shape scale p y
    assume IH: "\<And>rs shape scale p y. rec rs shape scale p = Some y \<Longrightarrow> 0 \<le> scale \<longrightarrow> 0 \<le> fst y"
      and step: "(if shape < 1
        then Option.bind (rec rs (shape + 1) scale p)
               (\<lambda>(g, p1). Some (g * (rs p1 powr (1 / shape)), p1 + 1))
        else (let d = shape - 1 / 3;
                  c = 1 / sqrt (9 * d)
              in sampleGamma_loop rs d c scale p)) = Some y"
      and scale: "0 \<le> scale"
    show "0 \<le> fst y"
    proof (cases "shape < 1")
      case True
      with step obtain g p1 where
        g: "rec rs (shape + 1) scale p = Some (g, p1)"
        and y: "y = (g * (rs p1 powr (1 / shape)), p1 + 1)"
        by (auto simp: bind_eq_Some_conv)
      from IH [OF g] scale have "0 \<le> g" by simp
      then show ?thesis using y by simp
    next
      case False
      then have "0 \<le> shape - 1 / 3" by simp
      with False step scale show ?thesis
        by (auto simp: Let_def dest: sampleGamma_loop_nonneg)
    qed
  qed
  with scale show ?thesis by simp
qed

lemma sampleGamma_draw_zero:
  assumes "rs p \<noteq> 0" and "rs (Suc p) = 1 / 4"
  shows "sampleGamma_draw rs c p = Some (Candidate 0 1, p + 2)"
proof -
  have "cos (2 * pi * rs (Suc p)) = 0" unfolding assms(2) by simp
  then have "randomNormal rs p = (Finite 0, p + 2)"
    using assms(1) by (simp add: randomNormal_def)
  then show ?thesis by (subst sampleGamma_draw.simps) simp
qed

lemma sampleGamma_loop_zero:
  assumes "rs p \<noteq> 0" and "rs (Suc p) = 1 / 4" and "rs (p + 2) < 1"
  shows "sampleGamma_loop rs d c scale p = Some (d * scale, p + 3)"
  using assms(3)
  by (subst sampleGamma_loop.simps)
     (simp add: sampleGamma_draw_zero [OF assms(1,2)] Let_def numeral_3_eq_3)

lemma sampleGamma_ge1_zero:
  assumes "1 \<le> shape" and "rs p \<noteq> 0" and "rs (Suc p) = 1 / 4" and "rs (p + 2) < 1"
  shows "sampleGamma rs shape scale p = Some ((shape - 1 / 3) * scale, p + 3)"
  using assms(1)
  by (subst sampleGamma.simps) (simp add: sampleGamma_loop_zero [OF assms(2-4)] Let_def)

lemma sampleGamma_lt1_zero:
  assumes "shape < 1" and "0 \<le> shape" and "rs p \<noteq> 0" and "rs (Suc p) = 1 / 4" and "rs (p + 2) < 1"
  shows "sampleGamma rs shape scale p =
           Some ((shape + 1 - 1 / 3) * scale * (rs (p + 3) powr (1 / shape)), p + 4)"
proof -
  have "sampleGamma rs (shape + 1) scale p = Some ((shape + 1 - 1 / 3) * scale, p + 3)"
    using assms by (intro sampleGamma_ge1_zero) simp_all
  then show ?thesis
    using assms(1) by (subst sampleGamma.simps) simp
qed

text \<open>
  Claim C2, as the code has it. For \<open>alpha > 0\<close> and \<open>beta > 0\<close> and every sequence of
  draws, a call of \<^const>\<open>sampleBeta\<close> that returns gives \<^verbatim>\<open>NaN\<close> or a number in the closed
  interval from 0 to 1. Nothing sharper is stated, since the bounds are reached by the
  doubles of the code also where the real numbers of this theory stay strictly inside:
  a small \<open>y\<close> is absorbed in \<^verbatim>\<open>x + y\<close> and the quotient is exactly 1, and
  \<^verbatim>\<open>Math.pow\<close> underflows to 0 for a small shape.
\<close>

theorem sampleBeta_closed_interval:
  assumes "0 < a" and "0 < b"
    and "sampleBeta rs a b p = Some (r, p')"
  shows "r = NaN \<or> (\<exists>v. r = Finite v \<and> 0 \<le> v \<and> v \<le> 1)"
proof -
  from assms(3) obtain x p1 y where
    x: "sampleGamma rs a 1 p = Some (x, p1)"
    and y: "sampleGamma rs b 1 p1 = Some (y, p')"
    and r: "r = (if x + y = 0
                 then (if x = 0 then NaN else if 0 < x then PosInfinity else NegInfinity)
                 else Finite (x / (x + y)))"
    by (auto simp: sampleBeta_def bind_eq_Some_conv)
  have x0: "0 \<le> x" using sampleGamma_nonneg [OF x] by simp
  have y0: "0 \<le> y" using sampleGamma_nonneg [OF y] by simp
  show ?thesis
  proof (cases "x + y = 0")
    case True
    with x0 y0 have "x = 0" by simp
    with True r show ?thesis by simp
  next
    case False
    with x0 y0 have pos: "0 < x + y" by simp
    have "0 \<le> x / (x + y)" using x0 pos by simp
    moreover have "x / (x + y) \<le> 1" using y0 pos by (simp add: divide_le_eq)
    ultimately show ?thesis using False r by simp
  qed
qed

theorem sampleBeta_closed_interval_witness:
  "(0::real) < 1 / 2 \<and> (0::real) < 1
   \<and> sampleBeta positiveDraws (1 / 2) 1 0 = Some (Finite (7 / 23), 7)
   \<and> (Finite (7 / 23) = NaN \<or> (\<exists>v. Finite (7 / 23) = Finite v \<and> 0 \<le> v \<and> v \<le> 1))"
proof -
  have x: "sampleGamma positiveDraws (1 / 2) 1 0 = Some (7 / 24, 4)"
    using sampleGamma_lt1_zero [of "1 / 2" positiveDraws 0 1]
    by (simp add: positiveDraws_def power2_eq_square)
  have y: "sampleGamma positiveDraws 1 1 4 = Some (2 / 3, 7)"
    using sampleGamma_ge1_zero [of 1 positiveDraws 4 1]
    by (simp add: positiveDraws_def)
  have run: "sampleBeta positiveDraws (1 / 2) 1 0 = Some (Finite (7 / 23), 7)"
    by (simp add: sampleBeta_def x y)
  have a: "(0::real) < 1 / 2" and b: "(0::real) < 1" by simp_all
  show ?thesis
    using a b run sampleBeta_closed_interval [OF a b run] by simp
qed

text \<open>The rejection loop on \<open>stuckDraws\<close>: every candidate has \<open>v \<le> 0\<close>.\<close>

lemma stuck_bound: "3 \<le> ln (1024 :: real)"
proof -
  have "exp (3 :: real) = exp 1 ^ 3"
    using exp_of_nat_mult [of 3 "1 :: real"] by simp
  also have "\<dots> \<le> 3 ^ 3"
    by (rule power_mono [OF exp_le]) simp
  also have "\<dots> \<le> (1024 :: real)" by simp
  finally show ?thesis by (simp add: ln_ge_iff)
qed

lemma stuck_normal:
  assumes "even p"
  shows "randomNormal stuckDraws p = (Finite (- sqrt (2 * ln 1024)), p + 2)"
proof -
  have "ln (1 / 1024 :: real) = - ln 1024"
    by (simp add: ln_div)
  moreover have "cos (2 * pi * (1 / 2)) = - 1" by simp
  ultimately show ?thesis
    using assms by (simp add: randomNormal_def stuckDraws_def)
qed

lemma stuck_reject: "1 + 1 / sqrt 6 * (- sqrt (2 * ln 1024)) \<le> 0"
proof -
  have "sqrt 6 \<le> sqrt (2 * ln 1024)"
    using stuck_bound by (intro real_sqrt_le_mono) simp
  then have "1 \<le> sqrt (2 * ln 1024) / sqrt 6"
    by (simp add: le_divide_eq)
  then show ?thesis by simp
qed

lemma sampleGamma_draw_stuck:
  assumes "even p"
  shows "sampleGamma_draw stuckDraws (1 / sqrt 6) p = None"
proof (cases "sampleGamma_draw stuckDraws (1 / sqrt 6) p")
  case None
  then show ?thesis .
next
  case (Some y)
  have "rs = stuckDraws \<longrightarrow> c = 1 / sqrt 6 \<longrightarrow> even p \<longrightarrow> False"
    if "sampleGamma_draw rs c p = Some y" for rs c p y
  proof (rule sampleGamma_draw.raw_induct
        [where P = "\<lambda>rs c p y. rs = stuckDraws \<longrightarrow> c = 1 / sqrt 6 \<longrightarrow> even p \<longrightarrow> False",
         OF _ that], intro impI)
    fix draw rs c p y
    assume IH: "\<And>rs c p y. draw rs c p = Some y \<Longrightarrow>
                  rs = stuckDraws \<longrightarrow> c = 1 / sqrt 6 \<longrightarrow> even p \<longrightarrow> False"
      and step: "(case randomNormal rs p of
        (Finite x, p1) \<Rightarrow>
          if 1 + c * x \<le> 0 then draw rs c p1
          else Some (Candidate x (1 + c * x), p1)
      | (PosInfinity, p1) \<Rightarrow> Some (Degenerate, p1)
      | (NegInfinity, p1) \<Rightarrow> draw rs c p1
      | (NaN, p1) \<Rightarrow> Some (Degenerate, p1)) = Some y"
      and rs: "rs = stuckDraws" and c: "c = 1 / sqrt 6" and p: "even p"
    from step have "draw stuckDraws (1 / sqrt 6) (p + 2) = Some y"
      unfolding rs c stuck_normal [OF p] using stuck_reject by simp
    from IH [OF this] p show False by simp
  qed
  from this [OF Some] assms show ?thesis by simp
qed

lemma sampleBeta_stuck: "sampleBeta stuckDraws 1 1 0 = None"
proof -
  have "sampleGamma_loop stuckDraws (2 / 3) (1 / sqrt 6) 1 0 = None"
    by (subst sampleGamma_loop.simps) (simp add: sampleGamma_draw_stuck)
  then have "sampleGamma stuckDraws 1 1 0 = None"
    by (subst sampleGamma.simps) (simp add: Let_def)
  then show ?thesis by (simp add: sampleBeta_def)
qed

text \<open>
  Claim C2 as stated fails in each of its parts. With \<^verbatim>\<open>Math.random()\<close> returning \<open>0\<close> in
  the branch for a shape below 1, \<^verbatim>\<open>sampleBeta(0.5, 1)\<close> returns 0, \<^verbatim>\<open>sampleBeta(1, 0.5)\<close>
  returns 1 and \<^verbatim>\<open>sampleBeta(0.5, 0.5)\<close> returns \<^verbatim>\<open>NaN\<close>; and on \<open>stuckDraws\<close>, whose values
  are all strictly between 0 and 1, \<^verbatim>\<open>sampleBeta(1, 1)\<close> does not return.
\<close>

theorem sampleBeta_boundary_draws:
  "sampleBeta exampleDraws (1 / 2) 1 0 = Some (Finite 0, 7)
   \<and> sampleBeta oneDraws 1 (1 / 2) 0 = Some (Finite 1, 7)
   \<and> sampleBeta nanDraws (1 / 2) (1 / 2) 0 = Some (NaN, 8)
   \<and> sampleBeta stuckDraws 1 1 0 = None"
proof -
  have x0: "sampleGamma exampleDraws (1 / 2) 1 0 = Some (0, 4)"
    using sampleGamma_lt1_zero [of "1 / 2" exampleDraws 0 1]
    by (simp add: exampleDraws_def)
  have y0: "sampleGamma exampleDraws 1 1 4 = Some (2 / 3, 7)"
    using sampleGamma_ge1_zero [of 1 exampleDraws 4 1]
    by (simp add: exampleDraws_def)
  have zero: "sampleBeta exampleDraws (1 / 2) 1 0 = Some (Finite 0, 7)"
    by (simp add: sampleBeta_def x0 y0)
  have x1: "sampleGamma oneDraws 1 1 0 = Some (2 / 3, 3)"
    using sampleGamma_ge1_zero [of 1 oneDraws 0 1]
    by (simp add: oneDraws_def)
  have y1: "sampleGamma oneDraws (1 / 2) 1 3 = Some (0, 7)"
    using sampleGamma_lt1_zero [of "1 / 2" oneDraws 3 1]
    by (simp add: oneDraws_def)
  have one: "sampleBeta oneDraws 1 (1 / 2) 0 = Some (Finite 1, 7)"
    by (simp add: sampleBeta_def x1 y1)
  have x2: "sampleGamma nanDraws (1 / 2) 1 0 = Some (0, 4)"
    using sampleGamma_lt1_zero [of "1 / 2" nanDraws 0 1]
    by (simp add: nanDraws_def)
  have y2: "sampleGamma nanDraws (1 / 2) 1 4 = Some (0, 8)"
    using sampleGamma_lt1_zero [of "1 / 2" nanDraws 4 1]
    by (simp add: nanDraws_def)
  have nan: "sampleBeta nanDraws (1 / 2) (1 / 2) 0 = Some (NaN, 8)"
    by (simp add: sampleBeta_def x2 y2)
  from zero one nan sampleBeta_stuck show ?thesis by simp
qed

section \<open>Properties of selection and evaluation\<close>

text \<open>
  Claim C8, as the code has it. \<^const>\<open>thompsonSample\<close> on the empty candidate list raises
  nothing: it draws no sample, \<^verbatim>\<open>Math.max()\<close> is \<^verbatim>\<open>-Infinity\<close>, \<^verbatim>\<open>indexOf\<close> gives \<open>- 1\<close> and
  the call returns \<^verbatim>\<open>candidateIds[-1]\<close>, that is \<^verbatim>\<open>undefined\<close>.
\<close>

theorem thompsonSample_empty:
  "thompsonSample db rs [] p = Some (None, p)"
  by (simp add: thompsonSample_def Math_max_def element_def)

text \<open>
  Claim C8 as stated fails: on a new database the call with no candidate returns
  normally, with the value \<^verbatim>\<open>undefined\<close>.
\<close>

theorem thompsonSample_empty_returns:
  "thompsonSample emptyDatabase steadyDraws [] 0 = Some (None, 0)"
  by (simp add: thompsonSample_def Math_max_def element_def)

lemma monteCarlo_count:
  "monteCarlo n rs perfA perfB c p = Some (c', p') \<Longrightarrow> c \<le> c' \<and> c' \<le> c + n"
proof (induction n arbitrary: c p)
  case 0
  then show ?case by simp
next
  case (Suc n)
  from Suc.prems obtain sa p1 sb p2 where
    "monteCarlo n rs perfA perfB (if js_less sb sa then c + 1 else c) p2 = Some (c', p')"
    by (auto simp: bind_eq_Some_conv)
  from Suc.IH [OF this] show ?case by (auto split: if_splits)
qed

text \<open>
  Claim C3. For every outcome \<open>countAWins\<close> of the Monte-Carlo loop on the posteriors of
  the two variants, with \<open>p = countAWins / 10000\<close>: \<^const>\<open>evaluateABTest\<close> returns, the count
  is at most 10000, the confidence is \<open>max p (1 - p)\<close> and lies in \<open>[1/2, 1]\<close>, the p-value is
  \<open>2 * min p (1 - p)\<close> and lies in \<open>[0, 1]\<close>, and the winner is A when the confidence exceeds
  0.95 and \<open>p > 0.5\<close>, B when the confidence exceeds 0.95 and \<open>p \<le> 0.5\<close>, and absent when
  the confidence is at most 0.95.
\<close>

theorem evaluateABTest_result:
  assumes "monteCarlo 10000 rs (getPerformance db variantA) (getPerformance db variantB) 0 p =
             Some (countAWins, p')"
  shows "\<exists>res.
           evaluateABTest db rs variantA variantB p = Some (res, p')
         \<and> countAWins \<le> 10000
         \<and> confidence res = max (real countAWins / 10000) (1 - real countAWins / 10000)
         \<and> 1 / 2 \<le> confidence res \<and> confidence res \<le> 1
         \<and> pValue res = 2 * min (real countAWins / 10000) (1 - real countAWins / 10000)
         \<and> 0 \<le> pValue res \<and> pValue res \<le> 1
         \<and> (0.95 < confidence res \<and> 0.5 < real countAWins / 10000 \<longrightarrow> winner res = Some variantA)
         \<and> (0.95 < confidence res \<and> real countAWins / 10000 \<le> 0.5 \<longrightarrow> winner res = Some variantB)
         \<and> (confidence res \<le> 0.95 \<longrightarrow> winner res = None)"
proof -
  let ?p = "real countAWins / 10000"
  let ?res = "\<lparr>winner = (if 0.95 < max ?p (1 - ?p)
                          then (if 0.5 < ?p then Some variantA else Some variantB)
                          else None),
               confidence = max ?p (1 - ?p), pValue = 2 * min ?p (1 - ?p)\<rparr>"
  have run: "evaluateABTest db rs variantA variantB p = Some (?res, p')"
    using assms by (simp add: evaluateABTest_def Let_def)
  from monteCarlo_count [OF assms] have n: "countAWins \<le> 10000" by simp
  then have "0 \<le> ?p" "?p \<le> 1" by simp_all
  then show ?thesis using n run by (intro exI [of _ ?res]) (auto simp: max_def min_def)
qed

lemma steadyDraws_at:
  "steadyDraws (3 * k) = 1 / 2" "steadyDraws (Suc (3 * k)) = 1 / 4"
  "steadyDraws (Suc (Suc (3 * k))) = 1 / 2"
proof -
  have "Suc (3 * k) mod 3 = 1" by presburger
  moreover have "Suc (Suc (3 * k)) mod 3 = 2" by presburger
  ultimately show "steadyDraws (3 * k) = 1 / 2" "steadyDraws (Suc (3 * k)) = 1 / 4"
    "steadyDraws (Suc (Suc (3 * k))) = 1 / 2"
    by (simp_all add: steadyDraws_def)
qed

lemma sampleGamma_steady:
  assumes "1 \<le> shape"
  shows "sampleGamma steadyDraws shape 1 (3 * k) = Some (shape - 1 / 3, 3 * k + 3)"
  using sampleGamma_ge1_zero [OF assms, of steadyDraws "3 * k" 1]
  by (simp add: steadyDraws_at)

lemma sampleBeta_steady:
  assumes "1 \<le> a" and "1 \<le> b"
  shows "sampleBeta steadyDraws a b (3 * k) =
           Some (Finite ((a - 1 / 3) / (a - 1 / 3 + (b - 1 / 3))), 3 * k + 6)"
proof -
  have x: "sampleGamma steadyDraws a 1 (3 * k) = Some (a - 1 / 3, 3 * k + 3)"
    by (rule sampleGamma_steady [OF assms(1)])
  have "sampleGamma steadyDraws b 1 (3 * (k + 1)) = Some (b - 1 / 3, 3 * (k + 1) + 3)"
    by (rule sampleGamma_steady [OF assms(2)])
  then have y: "sampleGamma steadyDraws b 1 (3 * k + 3) = Some (b - 1 / 3, 3 * k + 6)"
    by (simp add: algebra_simps)
  have "a - 1 / 3 + (b - 1 / 3) \<noteq> 0" using assms by simp
  then show ?thesis by (simp add: sampleBeta_def x y)
qed

lemma monteCarlo_steady:
  assumes "1 \<le> alpha perfA" and "1 \<le> beta perfA" and "1 \<le> alpha perfB" and "1 \<le> beta perfB"
  shows "monteCarlo n steadyDraws perfA perfB c (3 * k) =
           Some (if js_less
                      (Finite ((alpha perfB - 1 / 3) / (alpha perfB - 1 / 3 + (beta perfB - 1 / 3))))
                      (Finite ((alpha perfA - 1 / 3) / (alpha perfA - 1 / 3 + (beta perfA - 1 / 3))))
                 then c + n else c, 3 * k + 12 * n)"
proof -
  define sA where "sA = Finite ((alpha perfA - 1 / 3) / (alpha perfA - 1 / 3 + (beta perfA - 1 / 3)))"
  define sB where "sB = Finite ((alpha perfB - 1 / 3) / (alpha perfB - 1 / 3 + (beta perfB - 1 / 3)))"
  have a: "sampleBeta steadyDraws (alpha perfA) (beta perfA) (3 * k) = Some (sA, 3 * k + 6)" for k
    unfolding sA_def by (rule sampleBeta_steady [OF assms(1,2)])
  have b: "sampleBeta steadyDraws (alpha perfB) (beta perfB) (3 * k + 6) = Some (sB, 3 * (k + 4))" for k
    using sampleBeta_steady [OF assms(3,4), of "k + 2"] unfolding sB_def
    by (simp add: algebra_simps)
  have "monteCarlo n steadyDraws perfA perfB c (3 * k) =
          Some (if js_less sB sA then c + n else c, 3 * k + 12 * n)" for c k
  proof (induction n arbitrary: c k)
    case 0
    then show ?case by simp
  next
    case (Suc n)
    have "monteCarlo (Suc n) steadyDraws perfA perfB c (3 * k) =
            monteCarlo n steadyDraws perfA perfB (if js_less sB sA then c + 1 else c) (3 * (k + 4))"
      by (simp add: a b)
    also have "\<dots> = Some (if js_less sB sA then (if js_less sB sA then c + 1 else c) + n
                           else (if js_less sB sA then c + 1 else c), 3 * (k + 4) + 12 * n)"
      by (rule Suc.IH)
    also have "\<dots> = Some (if js_less sB sA then c + Suc n else c, 3 * k + 12 * Suc n)"
      by simp
    finally show ?case .
  qed
  then show ?thesis unfolding sA_def sB_def .
qed

theorem evaluateABTest_result_witness:
  "monteCarlo 10000 steadyDraws (getPerformance abExample ''a'') (getPerformance abExample ''b'')
     0 0 = Some (10000, 120000)
   \<and> evaluateABTest abExample steadyDraws ''a'' ''b'' 0 =
       Some (\<lparr>winner = Some ''a'', confidence = 1, pValue = 0\<rparr>, 120000)"
proof -
  have a: "getPerformance abExample ''a'' =
      \<lparr>variantId = ''a'', alpha = 2, beta = 1, totalTrials = 1, avgReward = 1,
         avgLatencyMs = 50, avgTokenCost = 2\<rparr>"
    and b: "getPerformance abExample ''b'' = defaultPrior ''b''"
    by (simp_all add: getPerformance_def performanceRow_def abExample_def emptyDatabase_def)
  have "monteCarlo 10000 steadyDraws (getPerformance abExample ''a'')
          (getPerformance abExample ''b'') 0 (3 * 0) = Some (10000, 120000)"
    by (subst monteCarlo_steady) (simp_all add: a b defaultPrior_def)
  then have loop: "monteCarlo 10000 steadyDraws (getPerformance abExample ''a'')
          (getPerformance abExample ''b'') 0 0 = Some (10000, 120000)"
    by simp
  from evaluateABTest_result [OF loop] obtain res where
    run: "evaluateABTest abExample steadyDraws ''a'' ''b'' 0 = Some (res, 120000)"
    and conf: "confidence res = max (real 10000 / 10000) (1 - real 10000 / 10000)"
    and pval: "pValue res = 2 * min (real 10000 / 10000) (1 - real 10000 / 10000)"
    and win: "0.95 < confidence res \<and> 0.5 < real 10000 / 10000 \<longrightarrow> winner res = Some ''a''"
    by blast
  from conf have c1: "confidence res = 1" by simp
  from pval have p0: "pValue res = 0" by simp
  from win c1 have w: "winner res = Some ''a''" by simp
  from c1 p0 w have "res = \<lparr>winner = Some ''a'', confidence = 1, pValue = 0\<rparr>" by simp
  with loop run show ?thesis by simp
qed

section \<open>Properties of evolution\<close>

lemma set_eligibleRows:
  "set (eligibleRows db) =
     {(pv, avgReward vp) | pv vp.
        pv \<in> set (prompt_variants db) \<and> vp \<in> set (variant_performance db)
        \<and> pv_id pv = variantId vp \<and> minTrialsBeforeExploitation \<le> totalTrials vp}"
  by (auto simp: eligibleRows_def)

lemma eligibleRows_prune:
  "set (eligibleRows (pruneLowPerformers db)) \<subseteq> set (eligibleRows db)"
  unfolding set_eligibleRows by (auto simp: pruneLowPerformers_def)

lemma topRows_subset: "set (topRows db n) \<subseteq> set (eligibleRows db)"
  using set_take_subset [of "nat n" "sort_key (\<lambda>row. - snd row) (eligibleRows db)"]
  by (auto simp: topRows_def Let_def)

lemma getTopVariants_empty_iff:
  "getTopVariants db n = [] \<longleftrightarrow> n = 0 \<or> eligibleRows db = []"
proof -
  have "sort_key (\<lambda>row. - snd row) (eligibleRows db) = [] \<longleftrightarrow> eligibleRows db = []"
    by (metis length_sort length_0_conv)
  then show ?thesis
    by (auto simp: getTopVariants_def topRows_def Let_def take_eq_Nil)
qed

lemma getTopVariants_prune_empty:
  assumes "getTopVariants db n = []"
  shows "getTopVariants (pruneLowPerformers db) n = []"
  using assms eligibleRows_prune [of db] by (auto simp: getTopVariants_empty_iff)

lemma tournament_empty: "tournament db [] rs p = (Inl TypeError, p + 3)"
  by (simp add: tournament_def contestant_def element_def better_def)

lemma evolveLoop_empty:
  "evolveLoop (Suc m) [] rs ids clock gen db p acc = (Inl TypeError, db, p + 3)"
  by (simp add: numeral_2_eq_2 tournament_empty)

text \<open>
  Claim C10. When the breeding pool is empty and at least one generation is asked for,
  \<^const>\<open>evolvePrompts\<close> throws a \<^verbatim>\<open>TypeError\<close> in the first tournament, after three draws
  and before any write. So a maintenance cycle on a store whose pool is empty prunes,
  fails in the evolve step and does not reach the decay of the exploration rate.
\<close>

theorem evolvePrompts_empty_pool:
  "(getTopVariants db populationSize = [] \<and> 1 \<le> nGenerations \<longrightarrow>
      evolvePrompts db rs ids clock populationSize nGenerations p = (Inl TypeError, db, p + 3))
   \<and> (getTopVariants (store pl) 5 = [] \<longrightarrow>
      maintenanceCycle pl rs ids clock p =
        (Inl TypeError, pl\<lparr>store := pruneLowPerformers (store pl)\<rparr>, p + 3))"
proof (intro conjI impI)
  assume a: "getTopVariants db populationSize = [] \<and> 1 \<le> nGenerations"
  then obtain m where m: "nat nGenerations = Suc m"
    by (cases "nat nGenerations") auto
  show "evolvePrompts db rs ids clock populationSize nGenerations p = (Inl TypeError, db, p + 3)"
    using a by (simp add: evolvePrompts_def m evolveLoop_empty del: evolveLoop.simps)
next
  assume "getTopVariants (store pl) 5 = []"
  then have "getTopVariants (pruneLowPerformers (store pl)) 5 = []"
    by (rule getTopVariants_prune_empty)
  then have "evolvePrompts (pruneLowPerformers (store pl)) rs ids clock 5 2 p =
      (Inl TypeError, pruneLowPerformers (store pl), p + 3)"
    by (simp add: evolvePrompts_def numeral_2_eq_2 evolveLoop_empty del: evolveLoop.simps)
  then show "maintenanceCycle pl rs ids clock p =
        (Inl TypeError, pl\<lparr>store := pruneLowPerformers (store pl)\<rparr>, p + 3)"
    by (simp add: maintenanceCycle_def)
qed

theorem evolvePrompts_empty_pool_witness:
  "getTopVariants emptyDatabase 5 = [] \<and> (1::int) \<le> 2
   \<and> evolvePrompts emptyDatabase (\<lambda>i. 1 / 2) (\<lambda>k. ''n'') (\<lambda>k. 0) 5 2 0 =
       (Inl TypeError, emptyDatabase, 3)
   \<and> maintenanceCycle \<lparr>store = emptyDatabase, explorationRate = 3 / 10\<rparr>
        (\<lambda>i. 1 / 2) (\<lambda>k. ''n'') (\<lambda>k. 0) 0 =
       (Inl TypeError, \<lparr>store = emptyDatabase, explorationRate = 3 / 10\<rparr>, 3)"
proof -
  have pool: "getTopVariants emptyDatabase 5 = []"
    by (simp add: getTopVariants_def topRows_def eligibleRows_def emptyDatabase_def)
  have prune: "pruneLowPerformers emptyDatabase = emptyDatabase"
    by (simp add: pruneLowPerformers_def emptyDatabase_def)
  show ?thesis
    using pool
      evolvePrompts_empty_pool [of emptyDatabase 5 2 "\<lambda>i. 1 / 2" "\<lambda>k. ''n''" "\<lambda>k. 0" 0
        "\<lparr>store = emptyDatabase, explorationRate = 3 / 10\<rparr>"]
    by (simp add: prune)
qed

lemma contestant_member: "contestant pool r = Some v \<Longrightarrow> v \<in> set pool"
  by (auto simp: contestant_def element_def nat_less_iff split: if_splits)

lemma contestant_in_pool:
  assumes "pool \<noteq> []" and "0 \<le> r" and "r < 1"
  shows "\<exists>v \<in> set pool. contestant pool r = Some v"
proof -
  let ?n = "length pool"
  have n: "0 < ?n" using assms(1) by simp
  have "0 \<le> r * real ?n" using assms(2) by simp
  then have lo: "0 \<le> \<lfloor>r * real ?n\<rfloor>" by simp
  have "r * real ?n < real ?n" using assms(3) n by simp
  then have hi: "\<lfloor>r * real ?n\<rfloor> < int ?n" by (simp add: floor_less_iff)
  from lo hi have "nat \<lfloor>r * real ?n\<rfloor> < ?n" by (simp only: nat_less_iff)
  then have "pool ! nat \<lfloor>r * real ?n\<rfloor> \<in> set pool" by (rule nth_mem)
  moreover have "contestant pool r = Some (pool ! nat \<lfloor>r * real ?n\<rfloor>)"
    unfolding contestant_def element_def using lo hi by (simp only: simp_thms if_True)
  ultimately show ?thesis by blast
qed

lemma better_Some:
  "better db (Some a) (Some b) =
     Inr (if avgReward (getPerformance db (pv_id b)) < avgReward (getPerformance db (pv_id a))
          then a else b)"
  by (simp add: better_def)

lemma tournament_Some:
  assumes "contestant pool (rs p) = Some c0"
    and "contestant pool (rs (p + 1)) = Some c1"
    and "contestant pool (rs (p + 2)) = Some c2"
  shows "tournament db pool rs p =
           (better db
              (Some (if avgReward (getPerformance db (pv_id c1)) < avgReward (getPerformance db (pv_id c0))
                     then c0 else c1))
              (Some c2), p + 3)"
  using assms by (simp add: tournament_def better_Some)

lemma tournament_pool:
  assumes "pool \<noteq> []" and "\<forall>i. 0 \<le> rs i \<and> rs i < 1"
  shows "\<exists>best \<in> set pool. tournament db pool rs p = (Inr best, p + 3)"
proof -
  obtain c0 where c0: "c0 \<in> set pool" "contestant pool (rs p) = Some c0"
    using contestant_in_pool [OF assms(1), of "rs p"] assms(2) by auto
  obtain c1 where c1: "c1 \<in> set pool" "contestant pool (rs (p + 1)) = Some c1"
    using contestant_in_pool [OF assms(1), of "rs (p + 1)"] assms(2) by auto
  obtain c2 where c2: "c2 \<in> set pool" "contestant pool (rs (p + 2)) = Some c2"
    using contestant_in_pool [OF assms(1), of "rs (p + 2)"] assms(2) by auto
  show ?thesis
    using c0(1) c1(1) c2(1)
    by (simp add: tournament_Some [OF c0(2) c1(2) c2(2)] better_Some)
qed

lemma better_cong:
  assumes "\<forall>v \<in> set pool. getPerformance db' (pv_id v) = getPerformance db (pv_id v)"
    and "\<And>v. a = Some v \<Longrightarrow> v \<in> set pool"
    and "\<And>v. b = Some v \<Longrightarrow> v \<in> set pool"
  shows "better db' a b = better db a b"
  using assms by (cases a; cases b) (simp_all add: better_def)

lemma better_member:
  assumes "better db a b = Inr best"
    and "\<And>v. a = Some v \<Longrightarrow> v \<in> set pool"
    and "\<And>v. b = Some v \<Longrightarrow> v \<in> set pool"
  shows "best \<in> set pool"
  using assms by (cases a; cases b) (auto simp: better_def split: if_splits)

lemma tournament_cong:
  assumes agree: "\<forall>v \<in> set pool. getPerformance db' (pv_id v) = getPerformance db (pv_id v)"
  shows "tournament db' pool rs p = tournament db pool rs p"
proof -
  let ?c0 = "contestant pool (rs p)" and ?c1 = "contestant pool (rs (p + 1))"
    and ?c2 = "contestant pool (rs (p + 2))"
  have first: "better db' ?c0 ?c1 = better db ?c0 ?c1"
    by (rule better_cong [OF agree]) (auto dest: contestant_member)
  have second: "better db' (Some best) ?c2 = better db (Some best) ?c2"
    if "better db ?c0 ?c1 = Inr best" for best
  proof -
    have "best \<in> set pool"
      by (rule better_member [OF that]) (auto dest: contestant_member)
    then show ?thesis
      by (intro better_cong [OF agree]) (auto dest: contestant_member)
  qed
  show ?thesis
  proof (cases "better db ?c0 ?c1")
    case (Inl e)
    then show ?thesis unfolding tournament_def Let_def first by simp
  next
    case (Inr best)
    with second [OF Inr] show ?thesis unfolding tournament_def Let_def first by simp
  qed
qed

lemma tournamentSelection_cong:
  assumes "\<forall>v \<in> set pool. getPerformance db' (pv_id v) = getPerformance db (pv_id v)"
  shows "tournamentSelection db' pool k rs p = tournamentSelection db pool k rs p"
  by (induction k arbitrary: p)
     (auto simp: tournament_cong [OF assms] split: prod.splits sum.splits)

lemma tournamentSelection_two:
  assumes "pool \<noteq> []" and "\<forall>i. 0 \<le> rs i \<and> rs i < 1"
  shows "\<exists>b0 \<in> set pool. \<exists>b1 \<in> set pool.
           tournamentSelection db pool 2 rs p = (Inr [b0, b1], p + 6)"
proof -
  obtain b0 where b0: "b0 \<in> set pool" "tournament db pool rs p = (Inr b0, p + 3)"
    using tournament_pool [OF assms] by blast
  obtain b1 where b1: "b1 \<in> set pool" "tournament db pool rs (p + 3) = (Inr b1, p + 3 + 3)"
    using tournament_pool [OF assms] by blast
  have "tournamentSelection db pool (Suc (Suc 0)) rs p = (Inr [b0, b1], p + 6)"
    by (simp add: b0(2) b1(2))
  then show ?thesis using b0(1) b1(1) by (auto simp: numeral_2_eq_2)
qed

lemma createVariant_fresh:
  assumes "newId \<notin> set (map pv_id (prompt_variants db))"
    and "newId \<notin> set (map variantId (variant_performance db))"
    and "parent \<noteq> []"
  shows "createVariant db tmpl (Some parent) gen newId now =
           (Inr newId,
            db\<lparr>prompt_variants :=
                 prompt_variants db @
                   [\<lparr>pv_id = newId, template = tmpl, parentId = Some parent, generation = gen,
                     createdAt = now\<rparr>],
               variant_performance := variant_performance db @ [defaultPrior newId]\<rparr>)"
  using assms by (simp add: createVariant_def Let_def)

lemma find_append_row:
  "find P (xs @ [y]) = (case find P xs of Some x \<Rightarrow> Some x | None \<Rightarrow> if P y then Some y else None)"
  by (induction xs) simp_all

lemma getPerformance_append:
  assumes "x \<noteq> newId"
  shows "getPerformance
           (db\<lparr>prompt_variants := pvs,
               variant_performance := variant_performance db @ [defaultPrior newId]\<rparr>) x =
         getPerformance db x"
  using assms
  by (simp add: getPerformance_def performanceRow_def find_append_row defaultPrior_def
      split: option.splits)


lemma contestant_nth:
  assumes "pool \<noteq> []" and "0 \<le> r" and "r < 1"
  shows "contestant pool r = Some (pool ! nat \<lfloor>r * real (length pool)\<rfloor>)
       \<and> pool ! nat \<lfloor>r * real (length pool)\<rfloor> \<in> set pool"
proof -
  let ?n = "length pool"
  have n: "0 < ?n" using assms(1) by simp
  have "0 \<le> r * real ?n" using assms(2) by simp
  then have lo: "0 \<le> \<lfloor>r * real ?n\<rfloor>" by simp
  have "r * real ?n < real ?n" using assms(3) n by simp
  then have hi: "\<lfloor>r * real ?n\<rfloor> < int ?n" by (simp add: floor_less_iff)
  from lo hi have "nat \<lfloor>r * real ?n\<rfloor> < ?n" by (simp only: nat_less_iff)
  then have "pool ! nat \<lfloor>r * real ?n\<rfloor> \<in> set pool" by (rule nth_mem)
  moreover have "contestant pool r = Some (pool ! nat \<lfloor>r * real ?n\<rfloor>)"
    unfolding contestant_def element_def using lo hi by (simp only: simp_thms if_True)
  ultimately show ?thesis by blast
qed

lemma tournament_explicit:
  assumes "pool \<noteq> []" and "\<forall>i. 0 \<le> rs i \<and> rs i < 1"
    and "c0 = pool ! nat \<lfloor>rs (q) * real (length pool)\<rfloor>" and "c1 = pool ! nat \<lfloor>rs (q + 1) * real (length pool)\<rfloor>" and "c2 = pool ! nat \<lfloor>rs (q + 2) * real (length pool)\<rfloor>"
    and "m = (if avgReward (getPerformance db (pv_id c1)) < avgReward (getPerformance db (pv_id c0)) then c0 else c1)"
  shows "tournament db pool rs q = (Inr (if avgReward (getPerformance db (pv_id c2)) < avgReward (getPerformance db (pv_id m)) then m else c2), q + 3)"
    and "(if avgReward (getPerformance db (pv_id c2)) < avgReward (getPerformance db (pv_id m)) then m else c2) \<in> set pool"
proof -
  have c0: "contestant pool (rs q) = Some c0" "c0 \<in> set pool"
    using contestant_nth [OF assms(1), of "rs q"] assms(2,3) by simp_all
  have c1: "contestant pool (rs (q + 1)) = Some c1" "c1 \<in> set pool"
    using contestant_nth [OF assms(1), of "rs (q + 1)"] assms(2,4) by simp_all
  have c2: "contestant pool (rs (q + 2)) = Some c2" "c2 \<in> set pool"
    using contestant_nth [OF assms(1), of "rs (q + 2)"] assms(2,5) by simp_all
  show "tournament db pool rs q = (Inr (if avgReward (getPerformance db (pv_id c2)) < avgReward (getPerformance db (pv_id m)) then m else c2), q + 3)"
    unfolding tournament_Some [OF c0(1) c1(1) c2(1)] assms(6) by (simp add: better_Some)
  show "(if avgReward (getPerformance db (pv_id c2)) < avgReward (getPerformance db (pv_id m)) then m else c2) \<in> set pool"
    using c0(2) c1(2) c2(2) unfolding assms(6) by simp
qed

lemma tournamentSelection_explicit:
  assumes "pool \<noteq> []" and "\<forall>i. 0 \<le> rs i \<and> rs i < 1"
    and "c0 = pool ! nat \<lfloor>rs (q) * real (length pool)\<rfloor>" and "c1 = pool ! nat \<lfloor>rs (q + 1) * real (length pool)\<rfloor>" and "c2 = pool ! nat \<lfloor>rs (q + 2) * real (length pool)\<rfloor>"
    and "c3 = pool ! nat \<lfloor>rs (q + 3) * real (length pool)\<rfloor>" and "c4 = pool ! nat \<lfloor>rs (q + 4) * real (length pool)\<rfloor>" and "c5 = pool ! nat \<lfloor>rs (q + 5) * real (length pool)\<rfloor>"
    and "m0 = (if avgReward (getPerformance db (pv_id c1)) < avgReward (getPerformance db (pv_id c0)) then c0 else c1)" and "parent = (if avgReward (getPerformance db (pv_id c2)) < avgReward (getPerformance db (pv_id m0)) then m0 else c2)"
    and "m1 = (if avgReward (getPerformance db (pv_id c4)) < avgReward (getPerformance db (pv_id c3)) then c3 else c4)" and "other = (if avgReward (getPerformance db (pv_id c5)) < avgReward (getPerformance db (pv_id m1)) then m1 else c5)"
  shows "tournamentSelection db pool 2 rs q = (Inr [parent, other], q + 6)"
    and "parent \<in> set pool" and "other \<in> set pool"
proof -
  have first: "tournament db pool rs q = (Inr parent, q + 3)" "parent \<in> set pool"
    unfolding assms(10)
    by (rule tournament_explicit [OF assms(1,2,3,4,5,9)])+
  have e: "q + 3 + 1 = q + 4" "q + 3 + 2 = q + 5" by simp_all
  have c3: "c3 = pool ! nat \<lfloor>rs (q + 3) * real (length pool)\<rfloor>"
    by (fact assms(6))
  have c4: "c4 = pool ! nat \<lfloor>rs (q + 3 + 1) * real (length pool)\<rfloor>"
    unfolding e by (fact assms(7))
  have c5: "c5 = pool ! nat \<lfloor>rs (q + 3 + 2) * real (length pool)\<rfloor>"
    unfolding e by (fact assms(8))
  from tournament_explicit [OF assms(1,2) c3 c4 c5 assms(11)]
  have second: "tournament db pool rs (q + 3) = (Inr other, q + 3 + 3)" "other \<in> set pool"
    unfolding assms(12) by simp_all
  have "tournamentSelection db pool (Suc (Suc 0)) rs q = (Inr [parent, other], q + 6)"
    by (simp add: first(1) second(1))
  then show "tournamentSelection db pool 2 rs q = (Inr [parent, other], q + 6)"
    by (simp add: numeral_2_eq_2)
  show "parent \<in> set pool" "other \<in> set pool" by (rule first(2), rule second(2))
qed

lemma evolveLoop_offspring:
  assumes pool: "pool \<noteq> []" and draws: "\<forall>i. 0 \<le> rs i \<and> rs i < 1"
    and nonempty: "\<forall>v \<in> set pool. pv_id v \<noteq> []"
    and bred: "\<And>q k parent other.
       tournamentSelection db pool 2 rs q = (Inr [parent, other], q + 6) \<Longrightarrow>
       B q k 
         \<lparr>pv_id = ids (k),
                  template =
                    (if rs (q + 6) < 0.2
                     then mutatePrompt (crossoverPrompts (template parent) (template other))
                            (rs (q + 7))
                     else crossoverPrompts (template parent) (template other)),
                  parentId = Some (pv_id parent), generation = generation parent + 1,
                  createdAt = clock (k)\<rparr>"
  shows "(\<forall>v \<in> set pool. getPerformance dbc (pv_id v) = getPerformance db (pv_id v)) \<Longrightarrow>
         (\<forall>k. gen \<le> k \<and> k < gen + m \<longrightarrow>
              ids k \<notin> set (map pv_id (prompt_variants dbc))
            \<and> ids k \<notin> set (map variantId (variant_performance dbc))
            \<and> ids k \<notin> pv_id ` set pool) \<Longrightarrow>
         inj_on ids {gen..<gen + m} \<Longrightarrow>
         \<exists>news qs.
           evolveLoop m pool rs ids clock gen dbc p acc =
             (Inr (acc @ map ids [gen..<gen + m]),
              dbc\<lparr>prompt_variants := prompt_variants dbc @ news,
                  variant_performance :=
                    variant_performance dbc @ map (\<lambda>k. defaultPrior (ids k)) [gen..<gen + m]\<rparr>,
              qs m)
           \<and> length news = m \<and> qs 0 = p
           \<and> (\<forall>j<m. qs (Suc j) = (if rs (qs j + 6) < 0.2 then qs j + 8 else qs j + 7)
                    \<and> B (qs j) (gen + j) (news ! j))"
proof (induction m arbitrary: gen dbc p acc)
  case 0
  have "dbc\<lparr>prompt_variants := prompt_variants dbc @ [],
            variant_performance := variant_performance dbc @ []\<rparr> = dbc"
    by simp
  then show ?case by (intro exI [of _ "[]"] exI [of _ "\<lambda>j. p"]) simp
next
  case (Suc m)
  note agree = Suc.prems(1) and fresh = Suc.prems(2) and inj = Suc.prems(3)
  obtain parent other where b0: "parent \<in> set pool"
    and ts: "tournamentSelection db pool 2 rs p = (Inr [parent, other], p + 6)"
    using tournamentSelection_two [OF pool draws] by blast
  have ts': "tournamentSelection dbc pool 2 rs p = (Inr [parent, other], p + 6)"
    using ts tournamentSelection_cong [OF agree] by simp
  define p2 where "p2 = (if rs (p + 6) < 0.2 then p + 8 else p + 7)"
  define row0 where "row0 = \<lparr>pv_id = ids (gen),
                 template =
                   (if rs (p + 6) < 0.2
                    then mutatePrompt (crossoverPrompts (template parent) (template other))
                           (rs (p + 7))
                    else crossoverPrompts (template parent) (template other)),
                 parentId = Some (pv_id parent), generation = generation parent + 1,
                 createdAt = clock (gen)\<rparr>"
  define db1 where
    "db1 = dbc\<lparr>prompt_variants := prompt_variants dbc @ [row0],
               variant_performance := variant_performance dbc @ [defaultPrior (ids gen)]\<rparr>"
  have fresh0: "ids gen \<notin> set (map pv_id (prompt_variants dbc))"
    "ids gen \<notin> set (map variantId (variant_performance dbc))"
    "ids gen \<notin> pv_id ` set pool"
    using fresh [rule_format, of gen] by simp_all
  have e: "p + 6 + 1 = p + 7" "p + 6 + 2 = p + 8" by simp_all
  define mutated where
    "mutated = (if rs (p + 6) < 0.2
                then mutatePrompt (crossoverPrompts (template parent) (template other))
                       (rs (p + 6 + 1))
                else crossoverPrompts (template parent) (template other))"
  define p2' where "p2' = (if rs (p + 6) < 0.2 then p + 6 + 2 else p + 6 + 1)"
  have row0: "row0 = \<lparr>pv_id = ids gen, template = mutated, parentId = Some (pv_id parent),
                      generation = generation parent + 1, createdAt = clock gen\<rparr>"
    unfolding row0_def mutated_def e by (rule refl)
  have p2: "p2' = p2" unfolding p2'_def p2_def e by (rule refl)
  have cv: "createVariant dbc mutated (Some (pv_id parent)) (generation parent + 1)
      (ids gen) (clock gen) = (Inr (ids gen), db1)"
    unfolding db1_def row0
    using fresh0 nonempty b0 by (intro createVariant_fresh) auto
  have "evolveLoop (Suc m) pool rs ids clock gen dbc p acc =
      evolveLoop m pool rs ids clock (gen + 1) db1 p2' (acc @ [ids gen])"
    using cv by (simp add: ts' Let_def mutated_def p2'_def)
  then have step: "evolveLoop (Suc m) pool rs ids clock gen dbc p acc =
      evolveLoop m pool rs ids clock (gen + 1) db1 p2 (acc @ [ids gen])"
    unfolding p2 .
  have agree1: "\<forall>v \<in> set pool. getPerformance db1 (pv_id v) = getPerformance db (pv_id v)"
  proof
    fix v assume v: "v \<in> set pool"
    then have "pv_id v \<noteq> ids gen" using fresh0(3) by (metis imageI)
    then have "getPerformance db1 (pv_id v) = getPerformance dbc (pv_id v)"
      unfolding db1_def by (rule getPerformance_append)
    with agree v show "getPerformance db1 (pv_id v) = getPerformance db (pv_id v)" by simp
  qed
  have fresh1: "\<forall>k. gen + 1 \<le> k \<and> k < gen + 1 + m \<longrightarrow>
              ids k \<notin> set (map pv_id (prompt_variants db1))
            \<and> ids k \<notin> set (map variantId (variant_performance db1))
            \<and> ids k \<notin> pv_id ` set pool"
  proof (intro allI impI)
    fix k assume k: "gen + 1 \<le> k \<and> k < gen + 1 + m"
    have "ids k \<noteq> ids gen"
    proof
      assume "ids k = ids gen"
      from inj_onD [OF inj this] k show False by simp
    qed
    moreover have "ids k \<notin> set (map pv_id (prompt_variants dbc))
            \<and> ids k \<notin> set (map variantId (variant_performance dbc))
            \<and> ids k \<notin> pv_id ` set pool"
      using fresh [rule_format, of k] k by simp
    ultimately show "ids k \<notin> set (map pv_id (prompt_variants db1))
            \<and> ids k \<notin> set (map variantId (variant_performance db1))
            \<and> ids k \<notin> pv_id ` set pool"
      by (simp add: db1_def row0_def defaultPrior_def)
  qed
  have inj1: "inj_on ids {gen + 1..<gen + 1 + m}"
    by (rule inj_on_subset [OF inj]) auto
  from Suc.IH [OF agree1 fresh1 inj1, of p2 "acc @ [ids gen]"]
  obtain news qs' where
    run: "evolveLoop m pool rs ids clock (gen + 1) db1 p2 (acc @ [ids gen]) =
             (Inr ((acc @ [ids gen]) @ map ids [gen + 1..<gen + 1 + m]),
              db1\<lparr>prompt_variants := prompt_variants db1 @ news,
                  variant_performance :=
                    variant_performance db1 @ map (\<lambda>k. defaultPrior (ids k)) [gen + 1..<gen + 1 + m]\<rparr>,
              qs' m)"
    and len: "length news = m" and start: "qs' 0 = p2"
    and rows: "\<forall>j<m. qs' (Suc j) = (if rs (qs' j + 6) < 0.2 then qs' j + 8 else qs' j + 7)
                    \<and> B (qs' j) (gen + 1 + j) (news ! j)"
    by blast
  define qs where "qs j = (case j of 0 \<Rightarrow> p | Suc i \<Rightarrow> qs' i)" for j
  have qs0: "qs 0 = p" and qsS: "\<And>i. qs (Suc i) = qs' i" by (simp_all add: qs_def)
  have upt: "[gen..<gen + Suc m] = gen # [gen + 1..<gen + 1 + m]"
    by (simp add: upt_conv_Cons)
  have result: "evolveLoop (Suc m) pool rs ids clock gen dbc p acc =
             (Inr (acc @ map ids [gen..<gen + Suc m]),
              dbc\<lparr>prompt_variants := prompt_variants dbc @ (row0 # news),
                  variant_performance :=
                    variant_performance dbc @ map (\<lambda>k. defaultPrior (ids k)) [gen..<gen + Suc m]\<rparr>,
              qs (Suc m))"
    unfolding step run upt qsS by (simp add: db1_def)
  have first: "B p gen row0"
    unfolding row0_def by (rule bred [OF ts])
  have all: "qs (Suc j) = (if rs (qs j + 6) < 0.2 then qs j + 8 else qs j + 7)
           \<and> B (qs j) (gen + j) ((row0 # news) ! j)" if "j < Suc m" for j
  proof (cases j)
    case 0
    show ?thesis unfolding 0 qsS qs0 using first start by (simp add: p2_def)
  next
    case (Suc i)
    with that have "i < m" by simp
    with rows show ?thesis unfolding Suc qsS by simp
  qed
  show ?case
    using result len qs0 all
    by (intro exI [of _ "row0 # news"] exI [of _ qs]) simp
qed

lemma getTopVariants_ranked:
  "\<exists>rewards. length rewards = length (getTopVariants db n) \<and> sorted_wrt (\<ge>) rewards
     \<and> (\<forall>i < length (getTopVariants db n).
           getTopVariants db n ! i \<in> set (prompt_variants db)
         \<and> (\<exists>vp \<in> set (variant_performance db).
               variantId vp = pv_id (getTopVariants db n ! i)
             \<and> 10 \<le> totalTrials vp \<and> avgReward vp = rewards ! i))
     \<and> (\<forall>pv \<in> set (prompt_variants db). \<forall>vp \<in> set (variant_performance db).
           pv_id pv = variantId vp \<and> 10 \<le> totalTrials vp \<and> pv \<notin> set (getTopVariants db n) \<longrightarrow>
             0 \<le> n \<and> length (getTopVariants db n) = nat n
           \<and> (\<forall>r \<in> set rewards. avgReward vp \<le> r))"
proof -
  let ?sorted = "sort_key (\<lambda>row. - snd row) (eligibleRows db)"
  have "sorted (map (\<lambda>row. - snd row) ?sorted)" by (rule sorted_sort_key)
  then have s: "sorted_wrt (\<lambda>a b. snd b \<le> snd a) ?sorted"
    by (simp add: sorted_map)
  have "sorted_wrt (\<lambda>a b. snd b \<le> snd a) (topRows db n)"
    using s sorted_wrt_take [OF s, of "nat n"] by (simp add: topRows_def Let_def)
  then have sorted: "sorted_wrt (\<ge>) (map snd (topRows db n))"
    by (simp add: sorted_wrt_map)
  have rows: "getTopVariants db n ! i \<in> set (prompt_variants db)
         \<and> (\<exists>vp \<in> set (variant_performance db).
               variantId vp = pv_id (getTopVariants db n ! i)
             \<and> 10 \<le> totalTrials vp \<and> avgReward vp = map snd (topRows db n) ! i)"
    if "i < length (getTopVariants db n)" for i
  proof -
    from that have i: "i < length (topRows db n)" by (simp add: getTopVariants_def)
    then have "topRows db n ! i \<in> set (eligibleRows db)"
      using topRows_subset [of db n] nth_mem by blast
    then obtain pv vp where "topRows db n ! i = (pv, avgReward vp)"
      "pv \<in> set (prompt_variants db)" "vp \<in> set (variant_performance db)"
      "pv_id pv = variantId vp" "minTrialsBeforeExploitation \<le> totalTrials vp"
      unfolding set_eligibleRows by blast
    then show ?thesis
      using i by (auto simp: getTopVariants_def minTrialsBeforeExploitation_def)
  qed
  have top: "0 \<le> n \<and> length (getTopVariants db n) = nat n
           \<and> (\<forall>r \<in> set (map snd (topRows db n)). avgReward vp \<le> r)"
    if pv: "pv \<in> set (prompt_variants db)" and vp: "vp \<in> set (variant_performance db)"
      and key: "pv_id pv = variantId vp" and trials: "10 \<le> totalTrials vp"
      and out: "pv \<notin> set (getTopVariants db n)" for pv vp
  proof -
    have "(pv, avgReward vp) \<in> set (eligibleRows db)"
      unfolding set_eligibleRows using pv vp key trials
      by (auto simp: minTrialsBeforeExploitation_def)
    then have mem: "(pv, avgReward vp) \<in> set ?sorted" by simp
    have notin: "(pv, avgReward vp) \<notin> set (topRows db n)"
      using out by (force simp: getTopVariants_def)
    have n: "0 \<le> n"
    proof (rule ccontr)
      assume "\<not> 0 \<le> n"
      then have "topRows db n = ?sorted" by (simp add: topRows_def Let_def)
      with mem notin show False by simp
    qed
    then have rows_take: "topRows db n = take (nat n) ?sorted"
      by (simp add: topRows_def Let_def)
    have "set ?sorted = set (take (nat n) ?sorted) \<union> set (drop (nat n) ?sorted)"
      by (metis append_take_drop_id set_append)
    with mem notin rows_take have dropped: "(pv, avgReward vp) \<in> set (drop (nat n) ?sorted)"
      by auto
    then have "drop (nat n) ?sorted \<noteq> []" by auto
    then have "nat n < length ?sorted" by simp
    then have full: "length (getTopVariants db n) = nat n"
      by (simp add: getTopVariants_def rows_take)
    have "sorted_wrt (\<lambda>a b. snd b \<le> snd a) (take (nat n) ?sorted @ drop (nat n) ?sorted)"
      using s by simp
    then have "\<forall>a \<in> set (take (nat n) ?sorted). \<forall>b \<in> set (drop (nat n) ?sorted). snd b \<le> snd a"
      unfolding sorted_wrt_append by blast
    with dropped have "\<forall>a \<in> set (topRows db n). avgReward vp \<le> snd a"
      unfolding rows_take by force
    with n full show ?thesis by simp
  qed
  show ?thesis
    using sorted rows top
    by (intro exI [of _ "map snd (topRows db n)"]) (simp add: getTopVariants_def)
qed

lemma getTopVariants_length: "0 \<le> n \<Longrightarrow> length (getTopVariants db n) \<le> nat n"
  by (simp add: getTopVariants_def topRows_def Let_def)

lemma getTopVariants_subset: "set (getTopVariants db n) \<subseteq> set (prompt_variants db)"
  using topRows_subset [of db n] unfolding set_eligibleRows getTopVariants_def by auto

text \<open>
  Claim C6. Let \<open>pool\<close> be the breeding pool \<open>getTopVariants db populationSize\<close> and
  non-empty, the draws lie in \<open>[0, 1)\<close>, the random ids be new to both tables and
  different from each other, and no stored variant have the empty id. Then
  \<^const>\<open>evolvePrompts\<close> returns one new id per generation iteration, in order, and appends
  one variant per iteration. Iteration \<open>j\<close> starts at the cursor \<open>qs j\<close>, where \<open>qs 0\<close> is the
  cursor of the call and an iteration takes 8 draws when it mutates and 7 otherwise. Its
  two tournaments draw the contestants \<open>c0, c1, c2\<close> and \<open>c3, c4, c5\<close> from the pool; in a
  tournament the earlier contestant stays ahead only with a strictly higher average
  reward. The new variant's parent reference is the winner of the first tournament, a
  member of the pool, its generation is that parent's generation plus 1, and its content
  is the crossover of the two winners, mutated when the seventh draw is below 0.2.

  The pool has at most \<open>populationSize\<close> members, each a stored variant with a posterior
  of at least 10 trials, listed by descending average reward; and a stored variant with
  such a posterior is left out only when the pool is full and holds no lower reward.
\<close>

theorem evolvePrompts_offspring:
  assumes pool_def: "pool = getTopVariants db populationSize"
    and pool: "pool \<noteq> []"
    and draws: "\<forall>i. 0 \<le> rs i \<and> rs i < 1"
    and fresh: "\<forall>k < nat nGenerations.
                  ids k \<notin> set (map pv_id (prompt_variants db))
                \<and> ids k \<notin> set (map variantId (variant_performance db))"
    and inj: "inj_on ids {..<nat nGenerations}"
    and nonempty: "\<forall>v \<in> set (prompt_variants db). pv_id v \<noteq> []"
  shows "\<exists>news qs.
           evolvePrompts db rs ids clock populationSize nGenerations p =
             (Inr (map ids [0..<nat nGenerations]),
              db\<lparr>prompt_variants := prompt_variants db @ news,
                 variant_performance :=
                   variant_performance db @
                     map (\<lambda>k. defaultPrior (ids k)) [0..<nat nGenerations]\<rparr>,
              qs (nat nGenerations))
         \<and> length news = nat nGenerations
         \<and> qs 0 = p
         \<and> (\<forall>j < nat nGenerations.
               qs (Suc j) = (if rs (qs j + 6) < 0.2 then qs j + 8 else qs j + 7)
             \<and> (\<exists>c0 c1 c2 c3 c4 c5 m0 m1 parent other.
                   c0 = pool ! nat \<lfloor>rs (qs j) * real (length pool)\<rfloor>
                 \<and> c1 = pool ! nat \<lfloor>rs (qs j + 1) * real (length pool)\<rfloor>
                 \<and> c2 = pool ! nat \<lfloor>rs (qs j + 2) * real (length pool)\<rfloor>
                 \<and> c3 = pool ! nat \<lfloor>rs (qs j + 3) * real (length pool)\<rfloor>
                 \<and> c4 = pool ! nat \<lfloor>rs (qs j + 4) * real (length pool)\<rfloor>
                 \<and> c5 = pool ! nat \<lfloor>rs (qs j + 5) * real (length pool)\<rfloor>
                 \<and> m0 = (if avgReward (getPerformance db (pv_id c1))
                             < avgReward (getPerformance db (pv_id c0))
                          then c0 else c1)
                 \<and> parent = (if avgReward (getPerformance db (pv_id c2))
                             < avgReward (getPerformance db (pv_id m0))
                          then m0 else c2)
                 \<and> m1 = (if avgReward (getPerformance db (pv_id c4))
                             < avgReward (getPerformance db (pv_id c3))
                          then c3 else c4)
                 \<and> other = (if avgReward (getPerformance db (pv_id c5))
                             < avgReward (getPerformance db (pv_id m1))
                          then m1 else c5)
                 \<and> parent \<in> set pool
                 \<and> tournamentSelection db pool 2 rs (qs j) = (Inr [parent, other], qs j + 6)
                 \<and> news ! j =
                     \<lparr>pv_id = ids j,
                      template =
                        (if rs (qs j + 6) < 0.2
                         then mutatePrompt (crossoverPrompts (template parent) (template other))
                                (rs (qs j + 7))
                         else crossoverPrompts (template parent) (template other)),
                      parentId = Some (pv_id parent), generation = generation parent + 1,
                      createdAt = clock j\<rparr>))
         \<and> (0 \<le> populationSize \<longrightarrow> length pool \<le> nat populationSize)
         \<and> (\<exists>rewards.
               length rewards = length pool
             \<and> sorted_wrt (\<ge>) rewards
             \<and> (\<forall>i < length pool.
                   pool ! i \<in> set (prompt_variants db)
                 \<and> (\<exists>vp \<in> set (variant_performance db).
                       variantId vp = pv_id (pool ! i)
                     \<and> 10 \<le> totalTrials vp \<and> avgReward vp = rewards ! i))
             \<and> (\<forall>pv \<in> set (prompt_variants db). \<forall>vp \<in> set (variant_performance db).
                   pv_id pv = variantId vp \<and> 10 \<le> totalTrials vp \<and> pv \<notin> set pool \<longrightarrow>
                     0 \<le> populationSize \<and> length pool = nat populationSize
                   \<and> (\<forall>r \<in> set rewards. avgReward vp \<le> r)))"
proof -
  let ?g = "nat nGenerations"
  define B where "B q k r \<longleftrightarrow>
    (\<exists>c0 c1 c2 c3 c4 c5 m0 m1 parent other.
        c0 = pool ! nat \<lfloor>rs (q) * real (length pool)\<rfloor>
      \<and> c1 = pool ! nat \<lfloor>rs (q + 1) * real (length pool)\<rfloor>
      \<and> c2 = pool ! nat \<lfloor>rs (q + 2) * real (length pool)\<rfloor>
      \<and> c3 = pool ! nat \<lfloor>rs (q + 3) * real (length pool)\<rfloor>
      \<and> c4 = pool ! nat \<lfloor>rs (q + 4) * real (length pool)\<rfloor>
      \<and> c5 = pool ! nat \<lfloor>rs (q + 5) * real (length pool)\<rfloor>
      \<and> m0 = (if avgReward (getPerformance db (pv_id c1)) < avgReward (getPerformance db (pv_id c0)) then c0 else c1)
      \<and> parent = (if avgReward (getPerformance db (pv_id c2)) < avgReward (getPerformance db (pv_id m0)) then m0 else c2)
      \<and> m1 = (if avgReward (getPerformance db (pv_id c4)) < avgReward (getPerformance db (pv_id c3)) then c3 else c4)
      \<and> other = (if avgReward (getPerformance db (pv_id c5)) < avgReward (getPerformance db (pv_id m1)) then m1 else c5)
      \<and> parent \<in> set pool
      \<and> tournamentSelection db pool 2 rs (q) = (Inr [parent, other], q + 6)
      \<and> r =
          \<lparr>pv_id = ids (k),
                 template =
                   (if rs (q + 6) < 0.2
                    then mutatePrompt (crossoverPrompts (template parent) (template other))
                           (rs (q + 7))
                    else crossoverPrompts (template parent) (template other)),
                 parentId = Some (pv_id parent), generation = generation parent + 1,
                 createdAt = clock (k)\<rparr>)" for q k r
  have sub: "set pool \<subseteq> set (prompt_variants db)"
    unfolding pool_def by (rule getTopVariants_subset)
  have ne: "\<forall>v \<in> set pool. pv_id v \<noteq> []" using sub nonempty by blast
  have bred: "B q k 
      \<lparr>pv_id = ids (k),
                 template =
                   (if rs (q + 6) < 0.2
                    then mutatePrompt (crossoverPrompts (template parent) (template other))
                           (rs (q + 7))
                    else crossoverPrompts (template parent) (template other)),
                 parentId = Some (pv_id parent), generation = generation parent + 1,
                 createdAt = clock (k)\<rparr>" if "tournamentSelection db pool 2 rs q = (Inr [parent, other], q + 6)"
    for q k parent other
  proof -
    define c0 where "c0 = pool ! nat \<lfloor>rs (q) * real (length pool)\<rfloor>"
    define c1 where "c1 = pool ! nat \<lfloor>rs (q + 1) * real (length pool)\<rfloor>"
    define c2 where "c2 = pool ! nat \<lfloor>rs (q + 2) * real (length pool)\<rfloor>"
    define c3 where "c3 = pool ! nat \<lfloor>rs (q + 3) * real (length pool)\<rfloor>"
    define c4 where "c4 = pool ! nat \<lfloor>rs (q + 4) * real (length pool)\<rfloor>"
    define c5 where "c5 = pool ! nat \<lfloor>rs (q + 5) * real (length pool)\<rfloor>"
    define m0 where "m0 = (if avgReward (getPerformance db (pv_id c1)) < avgReward (getPerformance db (pv_id c0)) then c0 else c1)"
    define parent' where "parent' = (if avgReward (getPerformance db (pv_id c2)) < avgReward (getPerformance db (pv_id m0)) then m0 else c2)"
    define m1 where "m1 = (if avgReward (getPerformance db (pv_id c4)) < avgReward (getPerformance db (pv_id c3)) then c3 else c4)"
    define other' where "other' = (if avgReward (getPerformance db (pv_id c5)) < avgReward (getPerformance db (pv_id m1)) then m1 else c5)"
    note defs = c0_def c1_def c2_def c3_def c4_def c5_def m0_def parent'_def m1_def other'_def
    have sel: "tournamentSelection db pool 2 rs q = (Inr [parent', other'], q + 6)"
      and mem: "parent' \<in> set pool"
      by (rule tournamentSelection_explicit [OF pool draws defs])+
    from sel that have same: "parent' = parent" "other' = other" by simp_all
    show ?thesis
      unfolding B_def
      apply (rule exI [of _ c0], rule exI [of _ c1], rule exI [of _ c2])
      apply (rule exI [of _ c3], rule exI [of _ c4], rule exI [of _ c5])
      apply (rule exI [of _ m0], rule exI [of _ m1], rule exI [of _ parent], rule exI [of _ other])
      using defs same mem that by blast
  qed
  have fresh': "\<forall>k. 0 \<le> k \<and> k < 0 + ?g \<longrightarrow>
              ids k \<notin> set (map pv_id (prompt_variants db))
            \<and> ids k \<notin> set (map variantId (variant_performance db))
            \<and> ids k \<notin> pv_id ` set pool"
    using fresh sub by auto
  have inj': "inj_on ids {0..<0 + ?g}" using inj by (simp add: atLeast0LessThan)
  have agree: "\<forall>v \<in> set pool. getPerformance db (pv_id v) = getPerformance db (pv_id v)"
    by simp
  from evolveLoop_offspring
    [where dbc = db and db = db and p = p and acc = "[]" and clock = clock and B = B,
     OF pool draws ne bred agree fresh' inj']
  obtain news qs where
    run: "evolveLoop ?g pool rs ids clock 0 db p [] =
       (Inr ([] @ map ids [0..<0 + ?g]),
        db\<lparr>prompt_variants := prompt_variants db @ news,
           variant_performance :=
             variant_performance db @ map (\<lambda>k. defaultPrior (ids k)) [0..<0 + ?g]\<rparr>, qs ?g)"
    and len: "length news = ?g" and start: "qs 0 = p"
    and rows: "\<forall>j<?g. qs (Suc j) = (if rs (qs j + 6) < 0.2 then qs j + 8 else qs j + 7)
                    \<and> B (qs j) (0 + j) (news ! j)"
    by blast
  have main: "evolvePrompts db rs ids clock populationSize nGenerations p =
             (Inr (map ids [0..<?g]),
              db\<lparr>prompt_variants := prompt_variants db @ news,
                 variant_performance :=
                   variant_performance db @ map (\<lambda>k. defaultPrior (ids k)) [0..<?g]\<rparr>,
              qs ?g)"
    using run by (simp add: evolvePrompts_def pool_def [symmetric] del: evolveLoop.simps)
  have rows': "\<forall>j<?g. qs (Suc j) = (if rs (qs j + 6) < 0.2 then qs j + 8 else qs j + 7)
                    \<and> B (qs j) j (news ! j)"
    using rows by simp
  have bound: "0 \<le> populationSize \<longrightarrow> length pool \<le> nat populationSize"
    unfolding pool_def using getTopVariants_length [of populationSize db] by simp
  show ?thesis
    apply (rule exI [of _ news], rule exI [of _ qs])
    apply (intro conjI)
         apply (rule main)
        apply (rule len)
       apply (rule start)
      apply (rule rows' [unfolded B_def])
     apply (rule bound)
    unfolding pool_def
    apply (rule getTopVariants_ranked)
    done
qed

text \<open>On equal rewards the limit keeps the variant whose posterior row comes first.\<close>

lemma tieExample_pool:
  "map pv_id (getTopVariants tieExample 1) = [''b'']"
  "map pv_id (getTopVariants tieExample 2) = [''b'', ''a'']"
  by (simp_all add: getTopVariants_def topRows_def eligibleRows_def tieExample_def
      minTrialsBeforeExploitation_def)

lemma evolveExample_pool:
  "getTopVariants evolveExample 5 =
     [\<lparr>pv_id = ''b'', template = ''Refactor.'', parentId = Some ''a'', generation = 1,
          createdAt = 2\<rparr>,
      \<lparr>pv_id = ''a'', template = ''Fix the bug.'', parentId = None, generation = 0,
          createdAt = 1\<rparr>]"
  by (simp add: getTopVariants_def topRows_def eligibleRows_def evolveExample_def
      minTrialsBeforeExploitation_def)

theorem evolvePrompts_offspring_witness:
  "getTopVariants evolveExample 5 \<noteq> []
   \<and> (\<forall>i::nat. (0::real) \<le> 1 / 2 \<and> (1 / 2 :: real) < 1)
   \<and> exampleIds 0 \<notin> set (map pv_id (prompt_variants evolveExample))
   \<and> exampleIds 0 \<notin> set (map variantId (variant_performance evolveExample))
   \<and> exampleIds 1 \<notin> set (map pv_id (prompt_variants evolveExample))
   \<and> exampleIds 1 \<notin> set (map variantId (variant_performance evolveExample))
   \<and> exampleIds 0 \<noteq> exampleIds 1
   \<and> [] \<notin> set (map pv_id (prompt_variants evolveExample))
   \<and> fst (evolvePrompts evolveExample (\<lambda>i. 1 / 2) exampleIds (\<lambda>k. 100 + int k) 5 2 0) =
       Inr [''n0'', ''n1'']"
proof -
  have pool: "getTopVariants evolveExample 5 \<noteq> []"
    by (simp add: evolveExample_pool)
  have draws: "\<forall>i::nat. (0::real) \<le> (\<lambda>i. 1 / 2) i \<and> (\<lambda>i. 1 / 2 :: real) i < 1"
    by simp
  have fresh: "\<forall>k < nat 2. exampleIds k \<notin> set (map pv_id (prompt_variants evolveExample))
                  \<and> exampleIds k \<notin> set (map variantId (variant_performance evolveExample))"
    by (simp add: exampleIds_def evolveExample_def)
  have inj: "inj_on exampleIds {..<nat 2}"
    by (auto simp: inj_on_def exampleIds_def split: if_splits)
  have nonempty: "\<forall>v \<in> set (prompt_variants evolveExample). pv_id v \<noteq> []"
    by (simp add: evolveExample_def)
  have upt: "[0..<nat 2] = [0, 1]"
    by (simp add: upt_rec)
  from evolvePrompts_offspring [OF refl pool draws fresh inj nonempty, of "\<lambda>k. 100 + int k" 0]
  obtain news qs where
    "evolvePrompts evolveExample (\<lambda>i. 1 / 2) exampleIds (\<lambda>k. 100 + int k) 5 2 0 =
       (Inr (map exampleIds [0..<nat 2]),
        evolveExample\<lparr>prompt_variants := prompt_variants evolveExample @ news,
           variant_performance :=
             variant_performance evolveExample @
               map (\<lambda>k. defaultPrior (exampleIds k)) [0..<nat 2]\<rparr>,
        qs (nat 2))"
    by blast
  then have "fst (evolvePrompts evolveExample (\<lambda>i. 1 / 2) exampleIds (\<lambda>k. 100 + int k) 5 2 0) =
       Inr (map exampleIds [0..<nat 2])"
    by simp
  then have run: "fst (evolvePrompts evolveExample (\<lambda>i. 1 / 2) exampleIds (\<lambda>k. 100 + int k) 5 2 0) =
       Inr [''n0'', ''n1'']"
    unfolding upt by (simp add: exampleIds_def)
  have ids: "exampleIds 0 \<notin> set (map pv_id (prompt_variants evolveExample))"
    "exampleIds 0 \<notin> set (map variantId (variant_performance evolveExample))"
    "exampleIds 1 \<notin> set (map pv_id (prompt_variants evolveExample))"
    "exampleIds 1 \<notin> set (map variantId (variant_performance evolveExample))"
    "exampleIds 0 \<noteq> exampleIds 1"
    "[] \<notin> set (map pv_id (prompt_variants evolveExample))"
    by (simp_all add: exampleIds_def evolveExample_def)
  from pool run ids show ?thesis by simp
qed

lemma evolveExample_run:
  "evolvePrompts evolveExample (\<lambda>i. 1 / 2) exampleIds (\<lambda>k. 100 + int k) 5 2 0 =
     (Inr [''n0'', ''n1''],
      evolveExample\<lparr>prompt_variants :=
        prompt_variants evolveExample @
          [\<lparr>pv_id = ''n0'',
            template = ''Fix the bug.'' @ [CHR 0x0A, CHR 0x0A] @ ''Additionally: Fix the bug.'',
            parentId = Some ''a'', generation = 1, createdAt = 100\<rparr>,
           \<lparr>pv_id = ''n1'',
            template = ''Fix the bug.'' @ [CHR 0x0A, CHR 0x0A] @ ''Additionally: Fix the bug.'',
            parentId = Some ''a'', generation = 1, createdAt = 101\<rparr>],
        variant_performance :=
          variant_performance evolveExample @ [defaultPrior ''n0'', defaultPrior ''n1'']\<rparr>,
      14)"
  by (simp add: evolvePrompts_def evolveExample_pool numeral_2_eq_2 tournament_def
      contestant_def element_def better_def getPerformance_def performanceRow_def
      crossoverPrompts_def createVariant_def exampleIds_def Let_def)
     (simp add: evolveExample_def defaultPrior_def)

end
